theory Spec2Isabelle
  imports Complex_Main "HOL-Library.Word"
begin

section \<open>Machine numbers\<close>

text \<open>
  The evaluator of \<^verbatim>\<open>evaluator.cpp\<close> counts with \<^verbatim>\<open>uint\<close> (32 bits, addition wraps
  around), returns the number of evaluated points as an \<^verbatim>\<open>int\<close> (32 bits, read as two's
  complement with \<open>sint\<close>) and computes its metrics in \<^verbatim>\<open>float\<close> (IEEE 754 binary32,
  round to nearest, ties to even). An \<^verbatim>\<open>int\<close> that overflows is undefined in the source and
  wraps around here; what is proved about the \<^verbatim>\<open>int\<close> counter is proved for clouds of fewer
  than \<open>2 ^ 31\<close> points, where it does not overflow.
\<close>

type_synonym uint = "32 word"
type_synonym cint = "32 word"

text \<open>
  A \<^verbatim>\<open>float\<close> is a finite value, an infinity or a NaN. The two zeros are one value
  \<open>Finite 0\<close>: the evaluator never inspects the sign of a zero.
\<close>

datatype float = Finite real | PosInf | NegInf | NaN

text \<open>The comparison \<^verbatim>\<open>a <= b\<close>: false as soon as one side is a NaN.\<close>

fun float_le :: "float \<Rightarrow> float \<Rightarrow> bool" where
  "float_le NaN b = False"
| "float_le a NaN = False"
| "float_le (Finite a) (Finite b) = (a \<le> b)"
| "float_le NegInf b = True"
| "float_le a PosInf = True"
| "float_le a b = False"

text \<open>The comparisons \<^verbatim>\<open>a >= b\<close> and \<^verbatim>\<open>a > b\<close>.\<close>

definition float_ge :: "float \<Rightarrow> float \<Rightarrow> bool" where
  "float_ge a b = float_le b a"

definition float_gt :: "float \<Rightarrow> float \<Rightarrow> bool" where
  "float_gt a b = (float_le b a \<and> \<not> float_le a b)"

text \<open>The number of binary digits of a natural number.\<close>

fun bit_length :: "nat \<Rightarrow> nat" where
  "bit_length n = (if n = 0 then 0 else Suc (bit_length (n div 2)))"

declare bit_length.simps [simp del]

text \<open>For \<open>0 < x\<close>, the exponent \<open>e\<close> with \<open>2 powi e \<le> x < 2 powi (e + 1)\<close>.\<close>

definition binade :: "real \<Rightarrow> int" where
  "binade x =
     (let c = (if 1 \<le> x then int (bit_length (nat \<lfloor>x\<rfloor>)) - 1
               else - int (bit_length (nat \<lfloor>1 / x\<rfloor>)))
      in if 2 powi (c + 1) \<le> x then c + 1 else c)"

text \<open>Rounding to the nearest integer, a tie going to the even one.\<close>

definition round_half_even :: "real \<Rightarrow> int" where
  "round_half_even q =
     (let n = \<lfloor>q\<rfloor>; f = q - of_int n
      in if f < 1 / 2 then n else if 1 / 2 < f then n + 1 else if even n then n else n + 1)"

text \<open>
  The spacing of the binary32 numbers around \<open>0 < x\<close>: 24 significant bits, the least
  exponent \<open>- 126\<close> (below it the spacing stays \<open>2 powi - 149\<close>, the subnormal numbers).
\<close>

definition ulp_of :: "real \<Rightarrow> real" where
  "ulp_of x = 2 powi (max (binade x) (- 126) - 23)"

text \<open>The multiple of the spacing nearest to \<open>0 < x\<close>.\<close>

definition round_magnitude :: "real \<Rightarrow> real" where
  "round_magnitude x = of_int (round_half_even (x / ulp_of x)) * ulp_of x"

text \<open>
  The binary32 value nearest to a real number; an infinity once the rounded magnitude
  reaches \<open>2 powi 128\<close>.
\<close>

definition round_binary32 :: "real \<Rightarrow> float" where
  "round_binary32 x =
     (if x = 0 then Finite 0
      else let r = round_magnitude \<bar>x\<bar>
           in if 2 powi 128 \<le> r then (if 0 < x then PosInf else NegInf)
              else Finite (sgn x * r))"

text \<open>\<^verbatim>\<open>static_cast<float>(n)\<close> for an unsigned \<open>n\<close>.\<close>

definition float_of_uint :: "uint \<Rightarrow> float" where
  "float_of_uint n = round_binary32 (real (unat n))"

text \<open>
  The division \<^verbatim>\<open>a / b\<close> of two floats. A zero divisor is taken as the positive zero, the
  only zero that the conversion of an unsigned number yields.
\<close>

fun float_div :: "float \<Rightarrow> float \<Rightarrow> float" where
  "float_div NaN b = NaN"
| "float_div a NaN = NaN"
| "float_div (Finite a) (Finite b) =
     (if b = 0 then (if a = 0 then NaN else if 0 < a then PosInf else NegInf)
      else round_binary32 (a / b))"
| "float_div (Finite a) b = Finite 0"
| "float_div PosInf (Finite b) = (if 0 \<le> b then PosInf else NegInf)"
| "float_div NegInf (Finite b) = (if 0 \<le> b then NegInf else PosInf)"
| "float_div a b = NaN"

section \<open>The metrics\<close>

text \<open>
  \<^verbatim>\<open>Evaluator::computePrecision\<close>, \<^verbatim>\<open>computeRecall\<close> and
  \<^verbatim>\<open>computeIntersectionOverUnion\<close>: the sums are the wrapping sums of \<^verbatim>\<open>uint\<close>.
\<close>

definition computePrecision :: "uint \<Rightarrow> uint \<Rightarrow> float" where
  "computePrecision tp fp =
     (if tp + fp = 0 then Finite 1
      else float_div (float_of_uint tp) (float_of_uint (tp + fp)))"

definition computeRecall :: "uint \<Rightarrow> uint \<Rightarrow> float" where
  "computeRecall tp fn =
     (if tp + fn = 0 then Finite 1
      else float_div (float_of_uint tp) (float_of_uint (tp + fn)))"

definition computeIntersectionOverUnion :: "uint \<Rightarrow> uint \<Rightarrow> uint \<Rightarrow> float" where
  "computeIntersectionOverUnion tp fp fn =
     (if tp + fp + fn = 0 then Finite 1
      else float_div (float_of_uint tp) (float_of_uint (tp + fp + fn)))"

text \<open>
  The metric as the specification words it, on the counts as natural numbers: the quotient
  of the numerator by the denominator in single precision, and \<open>1.0\<close> for a zero
  denominator.
\<close>

definition float_of_nat :: "nat \<Rightarrow> float" where
  "float_of_nat n = round_binary32 (real n)"

definition quotient_or_one :: "nat \<Rightarrow> nat \<Rightarrow> float" where
  "quotient_or_one num den =
     (if den = 0 then Finite 1 else float_div (float_of_nat num) (float_of_nat den))"

section \<open>Points, clouds and configuration\<close>

text \<open>
  The structures \<^verbatim>\<open>PointInfo\<close>, \<^verbatim>\<open>CloudInfo\<close> and \<^verbatim>\<open>Evaluator::Config\<close> are declared in
  headers; their fields are taken here as \<^verbatim>\<open>evaluator.cpp\<close> uses them. The type of the
  time stamp of a cloud is left open. The distance of a point is a \<^verbatim>\<open>float\<close>, the element
  type of the range buckets it is pushed into.
\<close>

record PointInfo =
  ready_for_evaluation :: bool
  ever_free_level_dynamic :: bool
  cluster_level_dynamic :: bool
  object_level_dynamic :: bool
  distance_to_sensor :: float
  ground_truth_dynamic :: bool

record 't CloudInfo =
  timestamp :: 't
  points :: "PointInfo list"

record Config =
  output_directory :: string
  min_range :: float
  max_range :: float
  evaluate_point_level :: bool
  evaluate_cluster_level :: bool
  evaluate_object_level :: bool
  evaluate_ranges :: bool

text \<open>\<^verbatim>\<open>Evaluator::Config::checkParams\<close>: the three conditions a valid configuration meets.\<close>

definition checkParams :: "Config \<Rightarrow> bool" where
  "checkParams cfg =
     (output_directory cfg \<noteq> [] \<and>
      float_ge (min_range cfg) (Finite 0) \<and>
      float_gt (max_range cfg) (min_range cfg))"

section \<open>Files, directories and the log\<close>

text \<open>
  What a stream receives is a sequence of cells: a character, or the text of a number
  written with \<^verbatim>\<open><<\<close>, which is kept as the number itself. The text of a number holds no line
  break. \<^verbatim>\<open>std::endl\<close> writes the line break and flushes.
\<close>

datatype 't cell = Chr char | FloatText float | NumText int | TimestampText 't

definition newline :: char where
  "newline = CHR 0x0A"

definition chars :: "string \<Rightarrow> 't cell list" where
  "chars s = map Chr s"

definition endl :: "'t cell list" where
  "endl = [Chr newline]"

text \<open>
  The file system finds a file by the components of its path, not by the spelling:
  \<^verbatim>\<open>out\<close>, \<^verbatim>\<open>out/\<close>, \<^verbatim>\<open>./out\<close> and \<^verbatim>\<open>out//\<close> name one directory. A path is kept as
  whether it starts at the root and the list of its components, the empty ones and \<^verbatim>\<open>.\<close>
  left out. Relative paths are relative to one working directory throughout. A component
  \<^verbatim>\<open>..\<close> is kept as a name like any other and symbolic links are not part of the model.
\<close>

fun split_path :: "string \<Rightarrow> string list" where
  "split_path [] = [[]]"
| "split_path (c # cs) =
     (if c = CHR ''/'' then [] # split_path cs
      else (case split_path cs of [] \<Rightarrow> [[c]] | x # xs \<Rightarrow> (c # x) # xs))"

type_synonym path = "bool \<times> string list"

definition path_of :: "string \<Rightarrow> path" where
  "path_of p =
     ((case p of [] \<Rightarrow> False | c # cs \<Rightarrow> c = CHR ''/''),
      filter (\<lambda>x. x \<noteq> [] \<and> x \<noteq> ''.'') (split_path p))"

text \<open>
  The world outside the evaluator: the directories that exist, the regular files with their
  contents, and the entries logged so far. A stream that is opened always writes: a full
  disk, a missing permission or a missing directory of the file are not part of the model.
\<close>

datatype 't log_entry = LogInfo "'t cell list" | LogError "'t cell list"

record 't world =
  directories :: "path set"
  file_table :: "path \<Rightarrow> 't cell list option"
  glog :: "'t log_entry list"

text \<open>The regular file that a path names, if there is one.\<close>

definition files :: "'t world \<Rightarrow> string \<Rightarrow> 't cell list option" where
  "files w p = file_table w (path_of p)"

text \<open>
  \<^verbatim>\<open>std::filesystem::exists\<close>: the empty path names nothing, any other path is looked up by
  its components.
\<close>

definition filesystem_exists :: "'t world \<Rightarrow> string \<Rightarrow> bool" where
  "filesystem_exists w p = (p \<noteq> [] \<and> (path_of p \<in> directories w \<or> files w p \<noteq> None))"

text \<open>
  \<^verbatim>\<open>std::filesystem::create_directories\<close> creates the directory and the directories above it
  that are missing. It throws when the path or a path above it is a regular file: the
  result is \<open>None\<close> then.
\<close>

definition ancestors :: "path \<Rightarrow> path list" where
  "ancestors k = map (\<lambda>i. (fst k, take i (snd k))) [1..<length (snd k)]"

definition create_directories :: "string \<Rightarrow> 't world \<Rightarrow> 't world option" where
  "create_directories p w =
     (if list_ex (\<lambda>k. file_table w k \<noteq> None) (path_of p # ancestors (path_of p)) then None
      else Some (w\<lparr>directories :=
                    directories w \<union> set (ancestors (path_of p)) \<union> {path_of p}\<rparr>))"

text \<open>
  An \<^verbatim>\<open>std::ofstream\<close> is named by the path it was opened on. Opening with
  \<^verbatim>\<open>std::ios::trunc\<close> empties the file, opening with \<^verbatim>\<open>std::ios::app\<close> keeps it and creates
  it when it is missing; writing appends.
\<close>

definition open_trunc :: "string \<Rightarrow> 't world \<Rightarrow> 't world" where
  "open_trunc p w = w\<lparr>file_table := (file_table w)(path_of p \<mapsto> [])\<rparr>"

definition open_app :: "string \<Rightarrow> 't world \<Rightarrow> 't world" where
  "open_app p w =
     w\<lparr>file_table := (file_table w)(path_of p \<mapsto>
        (case files w p of None \<Rightarrow> [] | Some c \<Rightarrow> c))\<rparr>"

definition stream_write :: "string \<Rightarrow> 't cell list \<Rightarrow> 't world \<Rightarrow> 't world" where
  "stream_write p cs w =
     w\<lparr>file_table := (file_table w)(path_of p \<mapsto>
        (case files w p of None \<Rightarrow> [] | Some c \<Rightarrow> c) @ cs)\<rparr>"

text \<open>\<^verbatim>\<open>LOG(INFO)\<close> and \<^verbatim>\<open>LOG(ERROR)\<close>.\<close>

definition log_info :: "'t cell list \<Rightarrow> 't world \<Rightarrow> 't world" where
  "log_info m w = w\<lparr>glog := glog w @ [LogInfo m]\<rparr>"

definition log_error :: "'t cell list \<Rightarrow> 't world \<Rightarrow> 't world" where
  "log_error m w = w\<lparr>glog := glog w @ [LogError m]\<rparr>"

section \<open>The time stamp of a directory\<close>

text \<open>
  The fields of \<^verbatim>\<open>struct tm\<close> that the format \<^verbatim>\<open>%Y_%m_%d-%H_%M_%S\<close> reads, as
  \<^verbatim>\<open>std::localtime\<close> fills them: the year counts from 1900, the month from 0.
\<close>

record tm =
  tm_year :: nat
  tm_mon :: nat
  tm_mday :: nat
  tm_hour :: nat
  tm_min :: nat
  tm_sec :: nat

definition digit_char :: "nat \<Rightarrow> char" where
  "digit_char d = ''0123456789'' ! (d mod 10)"

fun decimal :: "nat \<Rightarrow> string" where
  "decimal n = (if n < 10 then [digit_char n] else decimal (n div 10) @ [digit_char (n mod 10)])"

declare decimal.simps [simp del]

definition two_digits :: "nat \<Rightarrow> string" where
  "two_digits n = [digit_char (n div 10), digit_char n]"

text \<open>
  \<^verbatim>\<open>std::put_time(&tm, "%Y_%m_%d-%H_%M_%S")\<close>: the year in full, then month, day, hour,
  minute and second with two digits each, which is all there is to print of the values of
  \<^verbatim>\<open>std::localtime\<close> (the month at most 12, the others below 100).
\<close>

definition put_time :: "tm \<Rightarrow> string" where
  "put_time t =
     decimal (1900 + tm_year t) @ ''_'' @ two_digits (tm_mon t + 1) @ ''_'' @
     two_digits (tm_mday t) @ ''-'' @ two_digits (tm_hour t) @ ''_'' @
     two_digits (tm_min t) @ ''_'' @ two_digits (tm_sec t)"

section \<open>The evaluator\<close>

text \<open>
  The members of \<^verbatim>\<open>Evaluator\<close>; a member \<^verbatim>\<open>name_\<close> of the source is \<open>name_m\<close> here. The
  ground truth handler is an object of another class, kept as a value of an open type.
\<close>

text \<open>
  Modelled from the spec: the declaration of \<^verbatim>\<open>gt_frame_counter_\<close> is in the header; it is
  the counter of the frames evaluated so far, an integer that starts at zero.
\<close>

record 'h Evaluator =
  config_m :: Config
  ground_truth_handler :: 'h
  output_directory_m :: string
  evaluated_levels_m :: "string list"
  ranges_m :: "float list list"
  gt_frame_counter_m :: int

definition ranges_file_name :: string where
  "ranges_file_name = ''ranges.csv''"

definition scores_file_name :: string where
  "scores_file_name = ''scores.csv''"

definition timings_file_name :: string where
  "timings_file_name = ''timings.txt''"

subsection \<open>\<^verbatim>\<open>Evaluator::setupFiles\<close>\<close>

definition level_header :: "string \<Rightarrow> string" where
  "level_header level =
     (level @ ''_IoU,'') @ (level @ ''_Precision,'') @ (level @ ''_Recall,'') @
     (level @ ''_TP,'') @ (level @ ''_TN,'') @ (level @ ''_FP,'') @ (level @ ''_FN,'')"

definition setupFiles ::
  "tm \<Rightarrow> 'h Evaluator \<Rightarrow> 't world \<Rightarrow> ('h Evaluator \<times> 't world) option" where
  "setupFiles now e w =
     (let cfg = config_m e;
          dir = (if filesystem_exists w (output_directory cfg)
                 then output_directory cfg @ ''/'' @ put_time now
                 else output_directory cfg)
      in case create_directories dir w of
           None \<Rightarrow> None
         | Some w1 \<Rightarrow>
             (let w2 = log_info (chars ''Writing evaluation to '' @ [Chr (CHR 0x27)] @
                                 chars dir @ chars ''.'') w1;
                  levels = evaluated_levels_m e @
                           (if evaluate_point_level cfg then [''point''] else []) @
                           (if evaluate_cluster_level cfg then [''cluster''] else []) @
                           (if evaluate_object_level cfg then [''object''] else []);
                  writefile = dir @ ''/'' @ scores_file_name;
                  w3 = open_trunc writefile w2;
                  w4 = stream_write writefile (chars ''timestamp,'') w3;
                  w5 = stream_write writefile (chars (concat (map level_header levels))) w4;
                  w6 = stream_write writefile (chars ''EvaluatedPoints,TotalPoints'' @ endl) w5
              in Some (e\<lparr>output_directory_m := dir, evaluated_levels_m := levels,
                         ranges_m := (if evaluate_ranges cfg then replicate 4 []
                                      else ranges_m e)\<rparr>, w6)))"

text \<open>
  The constructor: a configuration that fails \<^verbatim>\<open>checkValid\<close> ends the program, a valid one
  is stored and the files are set up. The result is \<open>None\<close> when the program ends or
  \<^verbatim>\<open>setupFiles\<close> throws. The log entry with the text of the configuration is left out.
\<close>

definition new_Evaluator :: "tm \<Rightarrow> Config \<Rightarrow> 'h \<Rightarrow> 't world \<Rightarrow> ('h Evaluator \<times> 't world) option" where
  "new_Evaluator now cfg h w =
     (if checkParams cfg
      then setupFiles now
             \<lparr>config_m = cfg, ground_truth_handler = h, output_directory_m = [],
              evaluated_levels_m = [], ranges_m = [], gt_frame_counter_m = 0\<rparr> w
      else None)"

subsection \<open>\<^verbatim>\<open>Evaluator::writeTimingsToFile\<close>\<close>

text \<open>The report of \<^verbatim>\<open>voxblox::timing::Timing::Print()\<close> is an input, a string.\<close>

definition writeTimingsToFile :: "string \<Rightarrow> 'h Evaluator \<Rightarrow> 't world \<Rightarrow> 't world" where
  "writeTimingsToFile timing e w =
     (let writefile = output_directory_m e @ ''/'' @ timings_file_name
      in stream_write writefile (chars timing @ endl) (open_trunc writefile w))"

subsection \<open>\<^verbatim>\<open>Evaluator::filterEvaluatedPoints\<close>\<close>

text \<open>
  The loop over the points, with the counter \<^verbatim>\<open>number_of_points\<close> as an argument. It returns
  the points as the loop leaves them and the counter.
\<close>

fun filterEvaluatedPoints_loop :: "Config \<Rightarrow> PointInfo list \<Rightarrow> cint \<Rightarrow> PointInfo list \<times> cint" where
  "filterEvaluatedPoints_loop cfg [] number_of_points = ([], number_of_points)"
| "filterEvaluatedPoints_loop cfg (point # rest) number_of_points =
     (if float_ge (distance_to_sensor point) (min_range cfg) \<and>
         float_le (distance_to_sensor point) (max_range cfg)
      then (case filterEvaluatedPoints_loop cfg rest (number_of_points + 1) of
              (rest', n) \<Rightarrow> (point\<lparr>ready_for_evaluation := True\<rparr> # rest', n))
      else (case filterEvaluatedPoints_loop cfg rest number_of_points of
              (rest', n) \<Rightarrow> (point # rest', n)))"

definition filterEvaluatedPoints :: "'h Evaluator \<Rightarrow> 't CloudInfo \<Rightarrow> cint \<times> 't CloudInfo" where
  "filterEvaluatedPoints e cloud_info =
     (case filterEvaluatedPoints_loop (config_m e) (points cloud_info) 0 of
        (ps, n) \<Rightarrow> (n, cloud_info\<lparr>points := ps\<rparr>))"

subsection \<open>\<^verbatim>\<open>Evaluator::evaluateCloudAtLevel\<close>\<close>

text \<open>The choice of \<^verbatim>\<open>check_level\<close>; \<open>None\<close> is the branch of the unknown level.\<close>

definition check_level_of :: "string \<Rightarrow> (PointInfo \<Rightarrow> bool) option" where
  "check_level_of level =
     (if level = ''point'' then Some ever_free_level_dynamic
      else if level = ''cluster'' then Some cluster_level_dynamic
      else if level = ''object'' then Some object_level_dynamic
      else None)"

text \<open>The loop that counts true and false positives and negatives.\<close>

fun count_loop ::
  "(PointInfo \<Rightarrow> bool) \<Rightarrow> PointInfo list \<Rightarrow> uint \<times> uint \<times> uint \<times> uint \<Rightarrow>
   uint \<times> uint \<times> uint \<times> uint" where
  "count_loop check_level [] (tp, fp, tn, fn) = (tp, fp, tn, fn)"
| "count_loop check_level (point # rest) (tp, fp, tn, fn) =
     (if \<not> ready_for_evaluation point then count_loop check_level rest (tp, fp, tn, fn)
      else if check_level point \<and> ground_truth_dynamic point
        then count_loop check_level rest (tp + 1, fp, tn, fn)
      else if check_level point \<and> \<not> ground_truth_dynamic point
        then count_loop check_level rest (tp, fp + 1, tn, fn)
      else if \<not> check_level point \<and> \<not> ground_truth_dynamic point
        then count_loop check_level rest (tp, fp, tn + 1, fn)
      else if \<not> check_level point \<and> ground_truth_dynamic point
        then count_loop check_level rest (tp, fp, tn, fn + 1)
      else count_loop check_level rest (tp, fp, tn, fn))"

definition comma :: "'t cell" where
  "comma = Chr (CHR '','')"

definition metrics_cells :: "uint \<times> uint \<times> uint \<times> uint \<Rightarrow> 't cell list" where
  "metrics_cells c =
     (case c of (tp, fp, tn, fn) \<Rightarrow>
        [comma, FloatText (computeIntersectionOverUnion tp fp fn),
         comma, FloatText (computePrecision tp fp),
         comma, FloatText (computeRecall tp fn),
         comma, NumText (uint tp), comma, NumText (uint tn),
         comma, NumText (uint fp), comma, NumText (uint fn)])"

definition evaluateCloudAtLevel :: "'t CloudInfo \<Rightarrow> string \<Rightarrow> string \<Rightarrow> 't world \<Rightarrow> 't world" where
  "evaluateCloudAtLevel cloud_info level output_file w =
     (case check_level_of level of
        None \<Rightarrow>
          log_error (chars ''Unknown evaluation level '' @ [Chr (CHR 0x27)] @ chars level @
                     [Chr (CHR 0x27)] @ chars ''!'') w
      | Some check_level \<Rightarrow>
          stream_write output_file
            (metrics_cells (count_loop check_level (points cloud_info) (0, 0, 0, 0))) w)"

subsection \<open>\<^verbatim>\<open>Evaluator::evaluateRanges\<close>\<close>

text \<open>
  \<^verbatim>\<open>ranges_[i]\<close> and \<^verbatim>\<open>ranges_[i].push_back(d)\<close>. An index outside of \<^verbatim>\<open>ranges_\<close> is undefined
  behaviour in the source and \<open>None\<close> here.
\<close>

definition bucket :: "float list list \<Rightarrow> nat \<Rightarrow> float list option" where
  "bucket rs i = (if i < length rs then Some (rs ! i) else None)"

definition push_back :: "float list list \<Rightarrow> nat \<Rightarrow> float \<Rightarrow> float list list option" where
  "push_back rs i d = (if i < length rs then Some (rs[i := rs ! i @ [d]]) else None)"

fun evaluateRanges_loop :: "PointInfo list \<Rightarrow> float list list \<Rightarrow> float list list option" where
  "evaluateRanges_loop [] rs = Some rs"
| "evaluateRanges_loop (point # rest) rs =
     (if \<not> ready_for_evaluation point then evaluateRanges_loop rest rs
      else if cluster_level_dynamic point \<and> ground_truth_dynamic point
        then Option.bind (push_back rs 0 (distance_to_sensor point)) (evaluateRanges_loop rest)
      else if cluster_level_dynamic point \<and> \<not> ground_truth_dynamic point
        then Option.bind (push_back rs 1 (distance_to_sensor point)) (evaluateRanges_loop rest)
      else if \<not> cluster_level_dynamic point \<and> \<not> ground_truth_dynamic point
        then Option.bind (push_back rs 2 (distance_to_sensor point)) (evaluateRanges_loop rest)
      else if \<not> cluster_level_dynamic point \<and> ground_truth_dynamic point
        then Option.bind (push_back rs 3 (distance_to_sensor point)) (evaluateRanges_loop rest)
      else evaluateRanges_loop rest rs)"

definition range_cells :: "float list \<Rightarrow> 't cell list" where
  "range_cells ds = concat (map (\<lambda>d. [comma, FloatText d]) ds)"

definition evaluateRanges ::
  "'h Evaluator \<Rightarrow> 't CloudInfo \<Rightarrow> 't world \<Rightarrow> ('h Evaluator \<times> 't world) option" where
  "evaluateRanges e cloud_info w =
     (let writefile = output_directory_m e @ ''/'' @ ranges_file_name;
          w1 = open_trunc writefile w
      in case evaluateRanges_loop (points cloud_info) (ranges_m e) of
           None \<Rightarrow> None
         | Some rs \<Rightarrow>
             (case (bucket rs 0, bucket rs 1) of
                (Some tps, Some fps) \<Rightarrow>
                  Some (e\<lparr>ranges_m := rs\<rparr>,
                    stream_write writefile
                      (chars ''TP'' @ range_cells tps @
                       chars [newline, CHR ''F'', CHR ''P''] @ range_cells fps @
                       chars [newline, CHR ''T'', CHR ''N''] @ range_cells fps @
                       chars [newline, CHR ''F'', CHR ''N''] @ range_cells fps @
                       chars [newline]) w1)
              | _ \<Rightarrow> None))"

subsection \<open>\<^verbatim>\<open>Evaluator::writeScoresToFile\<close>\<close>

text \<open>The loop over \<^verbatim>\<open>evaluated_levels_\<close>.\<close>

fun evaluate_levels :: "'t CloudInfo \<Rightarrow> string list \<Rightarrow> string \<Rightarrow> 't world \<Rightarrow> 't world" where
  "evaluate_levels cloud_info [] writefile w = w"
| "evaluate_levels cloud_info (level # rest) writefile w =
     evaluate_levels cloud_info rest writefile (evaluateCloudAtLevel cloud_info level writefile w)"

definition writeScoresToFile ::
  "'h Evaluator \<Rightarrow> 't CloudInfo \<Rightarrow> 't world \<Rightarrow> ('h Evaluator \<times> 't CloudInfo \<times> 't world) option" where
  "writeScoresToFile e cloud_info w =
     (let writefile = output_directory_m e @ ''/'' @ scores_file_name;
          w1 = open_app writefile w;
          w2 = stream_write writefile [TimestampText (timestamp cloud_info)] w1
      in case filterEvaluatedPoints e cloud_info of
           (evaluated_points, cloud1) \<Rightarrow>
             (let w3 = evaluate_levels cloud1 (evaluated_levels_m e) writefile w2;
                  w4 = stream_write writefile
                         ([comma, NumText (sint evaluated_points),
                           comma, NumText (int (length (points cloud1)))] @ endl) w3
              in if evaluate_ranges (config_m e)
                 then (case evaluateRanges e cloud1 w4 of
                         None \<Rightarrow> None
                       | Some (e', w5) \<Rightarrow> Some (e', cloud1, w5))
                 else Some (e, cloud1, w4)))"

subsection \<open>\<^verbatim>\<open>Evaluator::evaluateFrame\<close>\<close>

text \<open>
  \<^verbatim>\<open>labelCloudInfoIfAvailable\<close> belongs to the ground truth handler, a class of its own. It
  is an argument here: from the handler and the cloud it gives whether labels were available,
  the cloud as it leaves it, and the handler as it leaves it.
\<close>

type_synonym ('h, 't) labeller = "'h \<Rightarrow> 't CloudInfo \<Rightarrow> bool \<times> 't CloudInfo \<times> 'h"

definition evaluateFrame ::
  "('h, 't) labeller \<Rightarrow> string \<Rightarrow> 'h Evaluator \<Rightarrow> 't CloudInfo \<Rightarrow> 't world \<Rightarrow>
   ('h Evaluator \<times> 't CloudInfo \<times> 't world) option" where
  "evaluateFrame labelCloudInfoIfAvailable timing e cloud_info w =
     (let w1 = writeTimingsToFile timing e w
      in case labelCloudInfoIfAvailable (ground_truth_handler e) cloud_info of
           (available, cloud1, h) \<Rightarrow>
             (let e1 = e\<lparr>ground_truth_handler := h\<rparr>
              in if available
                 then (case writeScoresToFile e1 cloud1 w1 of
                         None \<Rightarrow> None
                       | Some (e2, cloud2, w2) \<Rightarrow>
                           (let e3 = e2\<lparr>gt_frame_counter_m := gt_frame_counter_m e2 + 1\<rparr>
                            in Some (e3, cloud2,
                                 log_info (chars ''Evaluated cloud '' @
                                           [NumText (gt_frame_counter_m e3)] @
                                           chars '' with timestamp '' @
                                           [TimestampText (timestamp cloud2)] @ chars ''.'') w2)))
                 else Some (e1, cloud1, w1)))"

text \<open>
  A run of the evaluator over a sequence of frames, each with the timing report of its
  moment; \<open>None\<close> as soon as one call is undefined.
\<close>

fun evaluateFrames ::
  "('h, 't) labeller \<Rightarrow> (string \<times> 't CloudInfo) list \<Rightarrow> 'h Evaluator \<Rightarrow> 't world \<Rightarrow>
   ('h Evaluator \<times> 't world) option" where
  "evaluateFrames label [] e w = Some (e, w)"
| "evaluateFrames label ((timing, cloud_info) # rest) e w =
     (case evaluateFrame label timing e cloud_info w of
        None \<Rightarrow> None
      | Some (e', cloud', w') \<Rightarrow> evaluateFrames label rest e' w')"

section \<open>Notions used in the statements\<close>

subsection \<open>The words of the specification\<close>

text \<open>
  A point is eligible when its distance lies in the window of the configuration:
  \<open>minRange \<le> distance \<le> maxRange\<close>.
\<close>

definition within_range :: "Config \<Rightarrow> PointInfo \<Rightarrow> bool" where
  "within_range cfg point =
     (float_le (min_range cfg) (distance_to_sensor point) \<and>
      float_le (distance_to_sensor point) (max_range cfg))"

text \<open>The outcome of a point at a level: the prediction crossed with the ground truth.\<close>

definition is_true_positive :: "(PointInfo \<Rightarrow> bool) \<Rightarrow> PointInfo \<Rightarrow> bool" where
  "is_true_positive predicted point = (predicted point \<and> ground_truth_dynamic point)"

definition is_false_positive :: "(PointInfo \<Rightarrow> bool) \<Rightarrow> PointInfo \<Rightarrow> bool" where
  "is_false_positive predicted point = (predicted point \<and> \<not> ground_truth_dynamic point)"

definition is_true_negative :: "(PointInfo \<Rightarrow> bool) \<Rightarrow> PointInfo \<Rightarrow> bool" where
  "is_true_negative predicted point = (\<not> predicted point \<and> \<not> ground_truth_dynamic point)"

definition is_false_negative :: "(PointInfo \<Rightarrow> bool) \<Rightarrow> PointInfo \<Rightarrow> bool" where
  "is_false_negative predicted point = (\<not> predicted point \<and> ground_truth_dynamic point)"

text \<open>The distances of the evaluated points of one outcome, in the order of the cloud.\<close>

definition distances_of :: "(PointInfo \<Rightarrow> bool) \<Rightarrow> PointInfo list \<Rightarrow> float list" where
  "distances_of outcome ps =
     map distance_to_sensor (filter (\<lambda>p. ready_for_evaluation p \<and> outcome p) ps)"

text \<open>
  The directory a path lies in, and two paths beside each other: different, in the same
  directory.
\<close>

definition parent_path :: "path \<Rightarrow> path" where
  "parent_path k = (fst k, butlast (snd k))"

definition sibling :: "string \<Rightarrow> string \<Rightarrow> bool" where
  "sibling a b = (path_of a \<noteq> path_of b \<and> parent_path (path_of a) = parent_path (path_of b))"

text \<open>The form \<^verbatim>\<open>YYYY_MM_DD-HH_MM_SS\<close> of a time stamp, \<^verbatim>\<open>d\<close> standing for a digit.\<close>

definition is_digit :: "char \<Rightarrow> bool" where
  "is_digit c = (c \<in> set ''0123456789'')"

definition is_timestamp :: "string \<Rightarrow> bool" where
  "is_timestamp s =
     list_all2 (\<lambda>c t. if t = CHR ''d'' then is_digit c else c = t) s ''dddd_dd_dd-dd_dd_dd''"

subsection \<open>What the loops leave\<close>

text \<open>
  What the range filter leaves of one point: the flag is set when the point is eligible and
  kept as it was otherwise.
\<close>

definition filtered :: "Config \<Rightarrow> PointInfo \<Rightarrow> PointInfo" where
  "filtered cfg point =
     point\<lparr>ready_for_evaluation := ready_for_evaluation point \<or> within_range cfg point\<rparr>"

text \<open>What the loop over the levels writes for a cloud: the cells of each known level.\<close>

definition levels_cells :: "'t CloudInfo \<Rightarrow> string list \<Rightarrow> 't cell list" where
  "levels_cells cloud_info levels =
     concat (map (\<lambda>level. case check_level_of level of
                              None \<Rightarrow> []
                            | Some check_level \<Rightarrow>
                                metrics_cells (count_loop check_level (points cloud_info) (0, 0, 0, 0)))
                 levels)"

text \<open>The contents of a file, empty when it is missing, and the number of its lines.\<close>

definition contents :: "'t world \<Rightarrow> string \<Rightarrow> 't cell list" where
  "contents w p = (case files w p of None \<Rightarrow> [] | Some c \<Rightarrow> c)"

definition line_breaks :: "'t cell list \<Rightarrow> nat" where
  "line_breaks cs = length (filter (\<lambda>c. c = Chr newline) cs)"

text \<open>The row of the scores table for a labelled cloud.\<close>

definition score_row :: "'h Evaluator \<Rightarrow> 't CloudInfo \<Rightarrow> 't cell list" where
  "score_row e cloud_info =
     (case filterEvaluatedPoints e cloud_info of
        (evaluated_points, cloud1) \<Rightarrow>
          [TimestampText (timestamp cloud_info)] @
          levels_cells cloud1 (evaluated_levels_m e) @
          [comma, NumText (sint evaluated_points),
           comma, NumText (int (length (points cloud1)))] @ endl)"

text \<open>The number of frames of a run for which the handler has labels.\<close>

fun labelled :: "('h, 't) labeller \<Rightarrow> 'h \<Rightarrow> (string \<times> 't CloudInfo) list \<Rightarrow> nat" where
  "labelled label h [] = 0"
| "labelled label h ((timing, cloud_info) # rest) =
     (case label h cloud_info of
        (available, cloud1, h') \<Rightarrow> (if available then 1 else 0) + labelled label h' rest)"

section \<open>Example frames\<close>

definition example_config :: Config where
  "example_config =
     \<lparr>output_directory = ''out'', min_range = Finite 0, max_range = Finite 10,
      evaluate_point_level = True, evaluate_cluster_level = True,
      evaluate_object_level = False, evaluate_ranges = True\<rparr>"

text \<open>A point with the same prediction at the three levels.\<close>

definition example_point :: "bool \<Rightarrow> bool \<Rightarrow> bool \<Rightarrow> real \<Rightarrow> PointInfo" where
  "example_point ready predicted truth d =
     \<lparr>ready_for_evaluation = ready, ever_free_level_dynamic = predicted,
      cluster_level_dynamic = predicted, object_level_dynamic = predicted,
      distance_to_sensor = Finite d, ground_truth_dynamic = truth\<rparr>"

text \<open>
  Three points in the window, none marked yet: ground truth dynamic, dynamic, static;
  prediction dynamic, static, static.
\<close>

definition example_cloud :: "nat CloudInfo" where
  "example_cloud =
     \<lparr>timestamp = 17,
      points = [example_point False True True 2, example_point False False True 3,
                example_point False False False 5]\<rparr>"

text \<open>One point far outside the window that arrives with its flag set.\<close>

definition stale_cloud :: "nat CloudInfo" where
  "stale_cloud = \<lparr>timestamp = 18, points = [example_point True False False 100]\<rparr>"

text \<open>Four marked points: a false positive, a true negative, a false negative, a true positive.\<close>

definition marked_cloud :: "nat CloudInfo" where
  "marked_cloud =
     \<lparr>timestamp = 19,
      points = [example_point True True False 7, example_point True False False 5,
                example_point True False True 3, example_point True True True 2]\<rparr>"

definition empty_world :: "nat world" where
  "empty_world = \<lparr>directories = {}, file_table = (\<lambda>k. None), glog = []\<rparr>"

text \<open>An evaluator as \<^verbatim>\<open>setupFiles\<close> leaves it for the example configuration.\<close>

definition example_evaluator :: "nat Evaluator" where
  "example_evaluator =
     \<lparr>config_m = example_config, ground_truth_handler = 0, output_directory_m = ''out'',
      evaluated_levels_m = [''point'', ''cluster''], ranges_m = [[], [], [], []],
      gt_frame_counter_m = 0\<rparr>"

text \<open>The world right after that \<^verbatim>\<open>setupFiles\<close>, started in the empty world.\<close>

definition example_world :: "nat world" where
  "example_world =
     \<lparr>directories = {(False, [''out''])},
      file_table = (\<lambda>k. None)((False, [''out'', ''scores.csv'']) \<mapsto>
        chars (''timestamp,'' @
               ''point_IoU,point_Precision,point_Recall,point_TP,point_TN,point_FP,point_FN,'' @
               ''cluster_IoU,cluster_Precision,cluster_Recall,'' @
               ''cluster_TP,cluster_TN,cluster_FP,cluster_FN,'' @
               ''EvaluatedPoints,TotalPoints'') @ endl),
      glog = [LogInfo (chars ''Writing evaluation to '' @ [Chr (CHR 0x27)] @ chars ''out.'')]\<rparr>"

text \<open>
  The same world after an earlier run at \<^verbatim>\<open>example_time\<close> below: the time-stamped
  directory is there, with the scores of that run.
\<close>

definition stamped_world :: "nat world" where
  "stamped_world =
     example_world
       \<lparr>directories := directories example_world \<union> {(False, [''out'', ''2023_01_02-03_04_05''])},
        file_table := (file_table example_world)
          ((False, [''out'', ''2023_01_02-03_04_05'', ''scores.csv'']) \<mapsto>
             chars ''scores of an earlier run'' @ endl)\<rparr>"

text \<open>A handler that has labels for every second cloud it is asked about, starting with the first.\<close>

definition example_labeller :: "(nat, nat) labeller" where
  "example_labeller h cloud_info = (even h, cloud_info, Suc h)"

definition example_time :: tm where
  "example_time =
     \<lparr>tm_year = 123, tm_mon = 0, tm_mday = 2, tm_hour = 3, tm_min = 4, tm_sec = 5\<rparr>"

section \<open>Properties of the rounding\<close>

lemma powi_nat: "(2::real) powi int n = 2 ^ n" by simp
lemma powi_neg_nat: "(2::real) powi (- int n) = 1 / 2 ^ n"
  by (simp add: power_int_minus inverse_eq_divide)
lemma powi_succ: "(2::real) powi (e + 1) = 2 * 2 powi e"
  by (simp add: power_int_add)
lemma powi_mono: "a \<le> b \<Longrightarrow> (2::real) powi a \<le> 2 powi b"
  by (rule power_int_increasing) simp_all
lemma powi_diff: "(2::real) powi a / 2 powi b = 2 powi (a - b)"
  by (simp add: power_int_diff)

lemma bit_length_bounds: "0 < n \<Longrightarrow> 2 ^ (bit_length n - 1) \<le> n \<and> n < 2 ^ bit_length n"
proof (induction n rule: bit_length.induct)
  case (1 n)
  show ?case
  proof (cases "n div 2 = 0")
    case True
    with "1.prems" have "n = 1" by presburger
    then show ?thesis by (simp add: bit_length.simps)
  next
    case False
    then have "0 < n div 2" by simp
    with "1.IH" "1.prems" have ih: "2 ^ (bit_length (n div 2) - 1) \<le> n div 2" "n div 2 < 2 ^ bit_length (n div 2)"
      by auto
    have pos: "0 < bit_length (n div 2)"
      using False by (simp add: bit_length.simps [of "n div 2"])
    have bl: "bit_length n = Suc (bit_length (n div 2))"
      using "1.prems" by (simp add: bit_length.simps [of n])
    have "2 * 2 ^ (bit_length (n div 2) - 1) \<le> n" using ih(1) by presburger
    moreover have "2 * 2 ^ (bit_length (n div 2) - 1) = (2::nat) ^ bit_length (n div 2)"
      using pos by (cases "bit_length (n div 2)") simp_all
    moreover have "n < 2 * 2 ^ bit_length (n div 2)" using ih(2) by presburger
    ultimately show ?thesis unfolding bl by simp
  qed
qed

lemma floor_bit_length:
  assumes "1 \<le> (x::real)"
  defines "k \<equiv> bit_length (nat \<lfloor>x\<rfloor>)"
  shows "0 < k" "2 ^ (k - 1) \<le> x" "x < 2 ^ k"
proof -
  define n where "n = nat \<lfloor>x\<rfloor>"
  have fl: "1 \<le> \<lfloor>x\<rfloor>" using assms(1) by linarith
  then have npos: "0 < n" by (simp add: n_def)
  have rn: "real n = of_int \<lfloor>x\<rfloor>" using fl by (simp add: n_def)
  have kn: "k = bit_length n" by (simp add: k_def n_def)
  from bit_length_bounds [OF npos] have b: "2 ^ (k - 1) \<le> n" "n < 2 ^ k"
    by (simp_all add: kn)
  show "0 < k" using npos by (simp add: kn bit_length.simps [of n])
  have "real (2 ^ (k - 1)) \<le> real n" using b(1) by (simp only: of_nat_le_iff)
  then have lo1: "(2::real) ^ (k - 1) \<le> real n" by simp
  have "real n \<le> x" unfolding rn by (rule of_int_floor_le)
  with lo1 show "(2::real) ^ (k - 1) \<le> x" by linarith
  have "n + 1 \<le> 2 ^ k" using b(2) by simp
  then have "real (n + 1) \<le> real (2 ^ k)" by (simp only: of_nat_le_iff)
  then have hi1: "real n + 1 \<le> (2::real) ^ k" by simp
  have "x < real n + 1" unfolding rn by linarith
  with hi1 show "x < (2::real) ^ k" by linarith
qed

lemma binade_bounds_ge1:
  assumes "1 \<le> x"
  shows "2 powi binade x \<le> x \<and> x < 2 powi (binade x + 1)"
proof -
  define k where "k = bit_length (nat \<lfloor>x\<rfloor>)"
  from floor_bit_length [OF assms] have k: "0 < k" "2 ^ (k - 1) \<le> x" "x < 2 ^ k"
    by (simp_all add: k_def)
  have ik: "int k - 1 = int (k - 1)" using k(1) by simp
  have p1: "(2::real) powi (int k - 1) = 2 ^ (k - 1)"
    unfolding ik by (rule powi_nat)
  have p2: "(2::real) powi (int k - 1 + 1) = 2 ^ k"
    by simp
  have "binade x = (if 2 powi (int k - 1 + 1) \<le> x then int k - 1 + 1 else int k - 1)"
    using assms unfolding binade_def Let_def k_def by (simp only: if_True)
  then have "binade x = int k - 1" using k(3) unfolding p2 by simp
  then show ?thesis using k p1 p2 by simp
qed

lemma binade_bounds_lt1:
  assumes "0 < x" "x < 1"
  shows "2 powi binade x \<le> x \<and> x < 2 powi (binade x + 1)"
proof -
  define y where "y = 1 / x"
  have y1: "1 \<le> y" using assms by (simp add: y_def)
  define k where "k = bit_length (nat \<lfloor>y\<rfloor>)"
  from floor_bit_length [OF y1] have k: "0 < k" "2 ^ (k - 1) \<le> y" "y < 2 ^ k"
    by (simp_all add: k_def)
  have xlo: "1 / 2 ^ k < x"
    using k(3) assms(1) by (simp add: y_def field_simps)
  have xhi: "x \<le> 1 / 2 ^ (k - 1)"
    using k(2) assms(1) by (simp add: y_def field_simps)
  have p0: "(2::real) powi (- int k) = 1 / 2 ^ k"
    by (rule powi_neg_nat)
  have ik: "- int k + 1 = - int (k - 1)" using k(1) by simp
  have p1: "(2::real) powi (- int k + 1) = 1 / 2 ^ (k - 1)"
    unfolding ik by (rule powi_neg_nat)
  have p2: "(2::real) powi (- int k + 1 + 1) = 2 * (1 / 2 ^ (k - 1))"
    unfolding powi_succ [of "- int k + 1"] p1 by (rule refl)
  have nx: "\<not> 1 \<le> x" using assms(2) by simp
  have c: "binade x = (if 2 powi (- int k + 1) \<le> x then - int k + 1 else - int k)"
    using nx unfolding binade_def Let_def k_def y_def by (simp only: if_False)
  show ?thesis
  proof (cases "2 powi (- int k + 1) \<le> x")
    case True
    then have b: "binade x = - int k + 1" using c by simp
    have "0 < 1 / (2::real) ^ (k - 1)" by simp
    then have "x < 2 * (1 / 2 ^ (k - 1))" using xhi by linarith
    then show ?thesis using True unfolding b p2 by simp
  next
    case False
    then have b: "binade x = - int k" using c by simp
    have "x < 2 powi (- int k + 1)" using False by simp
    then show ?thesis using xlo unfolding b p0 by simp
  qed
qed

lemma binade_bounds:
  "0 < x \<Longrightarrow> 2 powi binade x \<le> x \<and> x < 2 powi (binade x + 1)"
  using binade_bounds_ge1 [of x] binade_bounds_lt1 [of x] by (cases "1 \<le> x") auto

lemma binade_mono:
  assumes "0 < x" "x \<le> y"
  shows "binade x \<le> binade y"
proof (rule ccontr)
  assume "\<not> binade x \<le> binade y"
  then have "binade y + 1 \<le> binade x" by simp
  then have "(2::real) powi (binade y + 1) \<le> 2 powi binade x" by (rule powi_mono)
  moreover have "y < 2 powi (binade y + 1)" using binade_bounds [of y] assms by simp
  moreover have "2 powi binade x \<le> x" using binade_bounds [of x] assms by simp
  ultimately show False using assms(2) by linarith
qed

lemma rhe_bounds: "\<lfloor>q\<rfloor> \<le> round_half_even q \<and> round_half_even q \<le> \<lfloor>q\<rfloor> + 1"
  by (simp add: round_half_even_def Let_def)

lemma rhe_of_int: "round_half_even (of_int n) = n"
  by (simp add: round_half_even_def)

lemma rhe_mono:
  assumes "q \<le> q'"
  shows "round_half_even q \<le> round_half_even q'"
proof (cases "\<lfloor>q\<rfloor> = \<lfloor>q'\<rfloor>")
  case True
  then show ?thesis using assms by (simp add: round_half_even_def Let_def)
next
  case False
  moreover have "\<lfloor>q\<rfloor> \<le> \<lfloor>q'\<rfloor>" using assms by (rule floor_mono)
  ultimately have "\<lfloor>q\<rfloor> + 1 \<le> \<lfloor>q'\<rfloor>" by simp
  then show ?thesis using rhe_bounds [of q] rhe_bounds [of q'] by linarith
qed

lemma rhe_le: "q \<le> of_int m \<Longrightarrow> round_half_even q \<le> m"
  using rhe_mono [of q "of_int m"] by (simp add: rhe_of_int)

lemma rhe_ge: "of_int m \<le> q \<Longrightarrow> m \<le> round_half_even q"
  using rhe_mono [of "of_int m" q] by (simp add: rhe_of_int)

lemma ulp_of_pos: "0 < ulp_of x"
  by (simp add: ulp_of_def)

lemma round_magnitude_nonneg: "0 \<le> x \<Longrightarrow> 0 \<le> round_magnitude x"
proof -
  assume "0 \<le> x"
  then have "of_int 0 \<le> x / ulp_of x" using ulp_of_pos [of x] by simp
  then have "0 \<le> round_half_even (x / ulp_of x)" by (rule rhe_ge)
  then show ?thesis using ulp_of_pos [of x] by (simp add: round_magnitude_def)
qed

lemma round_magnitude_upper:
  assumes "0 < x"
  shows "round_magnitude x \<le> 2 powi (max (binade x) (- 126) + 1)"
proof -
  define e where "e = max (binade x) (- 126)"
  have u: "ulp_of x = 2 powi (e - 23)" by (simp add: ulp_of_def e_def)
  have "x < 2 powi (binade x + 1)" using binade_bounds [OF assms] by simp
  also have "\<dots> \<le> 2 powi (e + 1)" by (rule powi_mono) (simp add: e_def)
  finally have "x / 2 powi (e - 23) \<le> 2 powi (e + 1) / 2 powi (e - 23)"
    by (simp add: divide_right_mono)
  also have "\<dots> = 2 powi 24" unfolding powi_diff by simp
  also have "\<dots> = of_int 16777216" by simp
  finally have "round_half_even (x / ulp_of x) \<le> 16777216" unfolding u by (rule rhe_le)
  then have "real_of_int (round_half_even (x / ulp_of x)) \<le> 2 powi 24" by simp
  then have "round_magnitude x \<le> 2 powi 24 * 2 powi (e - 23)"
    unfolding round_magnitude_def u by (rule mult_right_mono) simp
  also have "\<dots> = 2 powi (24 + (e - 23))" by (rule power_int_add [symmetric]) simp
  also have "24 + (e - 23) = e + 1" by simp
  finally show ?thesis unfolding e_def .
qed

lemma round_magnitude_lower:
  assumes "0 < x" "- 126 \<le> binade x"
  shows "2 powi binade x \<le> round_magnitude x"
proof -
  define e where "e = binade x"
  have u: "ulp_of x = 2 powi (e - 23)" using assms(2) by (simp add: ulp_of_def e_def max_def)
  have "2 powi e \<le> x" using binade_bounds [OF assms(1)] by (simp add: e_def)
  then have "2 powi e / 2 powi (e - 23) \<le> x / 2 powi (e - 23)"
    by (simp add: divide_right_mono)
  moreover have "(2::real) powi e / 2 powi (e - 23) = 2 powi 23" unfolding powi_diff by simp
  moreover have "(2::real) powi 23 = of_int 8388608" by simp
  ultimately have "of_int 8388608 \<le> x / ulp_of x" unfolding u by simp
  then have "8388608 \<le> round_half_even (x / ulp_of x)" by (rule rhe_ge)
  then have "2 powi 23 \<le> real_of_int (round_half_even (x / ulp_of x))" by simp
  then have "2 powi 23 * 2 powi (e - 23) \<le> round_magnitude x"
    unfolding round_magnitude_def u by (rule mult_right_mono) simp
  moreover have "(2::real) powi 23 * 2 powi (e - 23) = 2 powi (23 + (e - 23))"
    by (rule power_int_add [symmetric]) simp
  moreover have "23 + (e - 23) = e" by simp
  ultimately show ?thesis unfolding e_def by simp
qed

lemma round_magnitude_mono:
  assumes "0 < x" "x \<le> y"
  shows "round_magnitude x \<le> round_magnitude y"
proof -
  define ex where "ex = max (binade x) (- 126)"
  define ey where "ey = max (binade y) (- 126)"
  have ypos: "0 < y" using assms by simp
  have le: "ex \<le> ey" using binade_mono [OF assms] by (simp add: ex_def ey_def)
  show ?thesis
  proof (cases "ex = ey")
    case True
    then have u: "ulp_of x = ulp_of y" by (simp add: ulp_of_def ex_def ey_def)
    have "x / ulp_of y \<le> y / ulp_of y"
      using assms(2) ulp_of_pos [of y] by (simp add: divide_right_mono)
    then have "round_half_even (x / ulp_of y) \<le> round_half_even (y / ulp_of y)"
      by (rule rhe_mono)
    then have "real_of_int (round_half_even (x / ulp_of y)) \<le> real_of_int (round_half_even (y / ulp_of y))"
      by simp
    then show ?thesis unfolding round_magnitude_def u
      by (rule mult_right_mono) (simp add: less_imp_le ulp_of_pos)
  next
    case False
    with le have lt: "ex + 1 \<le> ey" by simp
    then have bin: "binade y = ey" "- 126 \<le> binade y" by (simp_all add: ex_def ey_def)
    have "round_magnitude x \<le> 2 powi (ex + 1)"
      using round_magnitude_upper [OF assms(1)] by (simp add: ex_def)
    also have "\<dots> \<le> 2 powi ey" using lt by (rule powi_mono)
    also have "\<dots> \<le> round_magnitude y"
      using round_magnitude_lower [OF ypos bin(2)] by (simp add: bin(1))
    finally show ?thesis .
  qed
qed

lemma round_magnitude_1: "round_magnitude 1 = 1"
  by (simp add: round_magnitude_def ulp_of_def binade_def round_half_even_def Let_def bit_length.simps)

lemma round_magnitude_2_32: "round_magnitude 4294967296 = 4294967296"
  by (simp add: round_magnitude_def ulp_of_def binade_def round_half_even_def Let_def bit_length.simps)

lemma round_magnitude_0: "round_magnitude 0 = 0"
  by (simp add: round_magnitude_def round_half_even_def)

lemma round_magnitude_exact:
  assumes "x / ulp_of x = of_int m"
  shows "round_magnitude x = x"
proof -
  have "round_magnitude x = of_int m * ulp_of x"
    unfolding round_magnitude_def assms rhe_of_int by (rule refl)
  also have "\<dots> = x / ulp_of x * ulp_of x" unfolding assms by (rule refl)
  also have "\<dots> = x" using ulp_of_pos [of x] by simp
  finally show ?thesis .
qed

lemma binade_nat_range:
  assumes "0 < n" "n \<le> 2 ^ 24"
  shows "0 \<le> binade (real n) \<and> binade (real n) \<le> 24"
proof -
  have pos: "0 < real n" using assms(1) by simp
  note b = binade_bounds [OF pos]
  have "0 \<le> binade (real n)"
  proof (rule ccontr)
    assume "\<not> 0 \<le> binade (real n)"
    then have "binade (real n) + 1 \<le> 0" by simp
    then have "(2::real) powi (binade (real n) + 1) \<le> 2 powi 0" by (rule powi_mono)
    moreover have "1 \<le> real n" using assms(1) by simp
    ultimately show False using b by simp
  qed
  moreover have "binade (real n) \<le> 24"
  proof (rule ccontr)
    assume "\<not> binade (real n) \<le> 24"
    then have "25 \<le> binade (real n)" by simp
    then have "(2::real) powi 25 \<le> 2 powi binade (real n)" by (rule powi_mono)
    moreover have "real n \<le> real (2 ^ 24)" using assms(2) by (simp only: of_nat_le_iff)
    ultimately show False using b by simp
  qed
  ultimately show ?thesis by simp
qed

lemma round_magnitude_nat:
  assumes "n \<le> 2 ^ 24"
  shows "round_magnitude (real n) = real n"
proof (cases "n = 0")
  case True
  then show ?thesis by (simp add: round_magnitude_0)
next
  case False
  then have npos: "0 < n" by simp
  define e where "e = binade (real n)"
  have r: "0 \<le> e" "e \<le> 24" using binade_nat_range [OF npos assms] by (simp_all add: e_def)
  have u: "ulp_of (real n) = 2 powi (e - 23)" using r(1) by (simp add: ulp_of_def e_def max_def)
  show ?thesis
  proof (cases "e = 24")
    case True
    have "(2::real) powi 24 \<le> real n" using binade_bounds [of "real n"] npos
      by (simp add: e_def [symmetric] True)
    moreover have "real n \<le> real (2 ^ 24)" using assms by (simp only: of_nat_le_iff)
    ultimately have n: "real n = 16777216" by simp
    have "real n / ulp_of (real n) = real n / 2 powi (24 - 23)" by (simp only: u True)
    also have "\<dots> = of_int 8388608" unfolding n by simp
    finally show ?thesis by (rule round_magnitude_exact)
  next
    case False
    with r have le: "e \<le> 23" by simp
    define j where "j = nat (23 - e)"
    have ej: "e - 23 = - int j" using le by (simp add: j_def)
    have "real n / ulp_of (real n) = real n * 2 ^ j"
      unfolding u ej powi_neg_nat by simp
    also have "\<dots> = of_int (int n * 2 ^ j)" by simp
    finally show ?thesis by (rule round_magnitude_exact)
  qed
qed

lemma round_binary32_nonneg:
  assumes "0 \<le> x" "round_magnitude x < 2 powi 128"
  shows "round_binary32 x = Finite (round_magnitude x)"
proof (cases "x = 0")
  case True
  then show ?thesis by (simp add: round_binary32_def round_magnitude_0)
next
  case False
  with assms(1) have "0 < x" by simp
  then have "\<bar>x\<bar> = x" "sgn x = 1" by simp_all
  then show ?thesis using False assms(2) by (simp add: round_binary32_def Let_def)
qed

lemma round_magnitude_nat_bound:
  assumes "n < 2 ^ 32"
  shows "round_magnitude (real n) < 2 powi 128"
proof (cases "n = 0")
  case True
  then show ?thesis by (simp add: round_magnitude_0)
next
  case False
  have "real n \<le> real (2 ^ 32)" using assms by (simp only: of_nat_le_iff less_imp_le)
  then have "real n \<le> 4294967296" by simp
  moreover have "0 < real n" using False by simp
  ultimately have "round_magnitude (real n) \<le> round_magnitude 4294967296"
    by (rule round_magnitude_mono [rotated])
  then show ?thesis unfolding round_magnitude_2_32 by simp
qed

lemma float_of_nat_value:
  "n < 2 ^ 32 \<Longrightarrow> float_of_nat n = Finite (round_magnitude (real n))"
  unfolding float_of_nat_def
  by (rule round_binary32_nonneg) (rule of_nat_0_le_iff, rule round_magnitude_nat_bound)

lemma float_of_uint_nat: "float_of_uint n = float_of_nat (unat n)"
  by (simp only: float_of_uint_def float_of_nat_def)

lemma round_binary32_unit:
  assumes "0 \<le> x" "x \<le> 1"
  shows "\<exists>r. round_binary32 x = Finite r \<and> 0 \<le> r \<and> r \<le> 1"
proof (cases "x = 0")
  case True
  then show ?thesis by (simp add: round_binary32_def)
next
  case False
  with assms(1) have pos: "0 < x" by simp
  have le: "round_magnitude x \<le> 1"
    using round_magnitude_mono [OF pos assms(2)] by (simp add: round_magnitude_1)
  have "round_binary32 x = Finite (round_magnitude x)"
    using assms(1) le by (intro round_binary32_nonneg) simp_all
  then show ?thesis using le round_magnitude_nonneg [OF assms(1)] by simp
qed

lemma float_div_nat_unit:
  assumes "m \<le> n" "0 < n" "n < 2 ^ 32"
  shows "\<exists>r. float_div (float_of_nat m) (float_of_nat n) = Finite r \<and> 0 \<le> r \<and> r \<le> 1"
proof -
  define x where "x = round_magnitude (real m)"
  define y where "y = round_magnitude (real n)"
  have "round_magnitude 1 \<le> y" unfolding y_def
    using assms(2) by (intro round_magnitude_mono) simp_all
  then have y1: "1 \<le> y" by (simp add: round_magnitude_1)
  have x0: "0 \<le> x" unfolding x_def by (rule round_magnitude_nonneg) simp
  have xy: "x \<le> y"
  proof (cases "m = 0")
    case True
    then show ?thesis using y1 by (simp add: x_def round_magnitude_0)
  next
    case False
    then show ?thesis unfolding x_def y_def using assms(1)
      by (intro round_magnitude_mono) simp_all
  qed
  have "m < 2 ^ 32" using assms(1,3) by simp
  then have "float_div (float_of_nat m) (float_of_nat n) = round_binary32 (x / y)"
    using y1 assms(3) by (simp add: float_of_nat_value x_def y_def)
  moreover have "0 \<le> x / y" "x / y \<le> 1" using x0 xy y1 by simp_all
  ultimately show ?thesis using round_binary32_unit [of "x / y"] by simp
qed

lemma quotient_or_one_unit:
  assumes "m \<le> n" "n < 2 ^ 32"
  shows "\<exists>r. quotient_or_one m n = Finite r \<and> 0 \<le> r \<and> r \<le> 1"
proof (cases "n = 0")
  case True
  then show ?thesis by (simp add: quotient_or_one_def)
next
  case False
  then show ?thesis using float_div_nat_unit [of m n] assms by (simp add: quotient_or_one_def)
qed

lemma quotient_or_one_correctly_rounded:
  assumes "m \<le> n" "0 < n" "n \<le> 2 ^ 24"
  shows "quotient_or_one m n = round_binary32 (real m / real n)"
proof -
  have "m \<le> 2 ^ 24" using assms(1,3) by simp
  then have m: "float_of_nat m = Finite (real m)"
    by (simp add: float_of_nat_value round_magnitude_nat)
  have n: "float_of_nat n = Finite (real n)"
    using assms(3) by (simp add: float_of_nat_value round_magnitude_nat)
  show ?thesis using assms(2) by (simp add: quotient_or_one_def m n)
qed

subsection \<open>The metrics on natural numbers\<close>

lemma computePrecision_nat:
  "computePrecision tp fp = quotient_or_one (unat tp) (unat (tp + fp))"
  by (simp add: computePrecision_def quotient_or_one_def float_of_uint_nat unat_eq_0)

lemma computeRecall_nat:
  "computeRecall tp fn = quotient_or_one (unat tp) (unat (tp + fn))"
  by (simp add: computeRecall_def quotient_or_one_def float_of_uint_nat unat_eq_0)

lemma computeIntersectionOverUnion_nat:
  "computeIntersectionOverUnion tp fp fn = quotient_or_one (unat tp) (unat (tp + fp + fn))"
  by (simp add: computeIntersectionOverUnion_def quotient_or_one_def float_of_uint_nat unat_eq_0)

lemma unat_add_small:
  "unat a + unat b < 2 ^ 32 \<Longrightarrow> unat (a + b :: uint) = unat a + unat b"
  using unat_add_lem [of a b] by simp

subsection \<open>The metrics\<close>

lemmas float_eval =
  float_of_uint_def float_of_nat_def quotient_or_one_def round_binary32_def round_magnitude_def
  ulp_of_def binade_def round_half_even_def Let_def bit_length.simps

text \<open>
  Claim C1, as the code has it. As long as the sum of the counters does not wrap around
  (it stays below \<open>2 ^ 32\<close>), \<^verbatim>\<open>computePrecision\<close> returns the single-precision quotient
  of TP by TP + FP and exactly \<open>1.0\<close> when TP + FP is zero; \<^verbatim>\<open>computeRecall\<close> does the
  same with TP + FN and \<^verbatim>\<open>computeIntersectionOverUnion\<close> with TP + FP + FN. By
  \<open>quotient_or_one_correctly_rounded\<close> the quotient is the exact one, rounded once, for
  denominators up to \<open>2 ^ 24\<close>.
\<close>

theorem metrics_are_quotients:
  "(unat tp + unat fp < 2 ^ 32 \<longrightarrow>
      computePrecision tp fp = quotient_or_one (unat tp) (unat tp + unat fp)) \<and>
   (unat tp + unat fn < 2 ^ 32 \<longrightarrow>
      computeRecall tp fn = quotient_or_one (unat tp) (unat tp + unat fn)) \<and>
   (unat tp + unat fp + unat fn < 2 ^ 32 \<longrightarrow>
      computeIntersectionOverUnion tp fp fn =
        quotient_or_one (unat tp) (unat tp + unat fp + unat fn))"
proof (intro conjI impI)
  assume "unat tp + unat fp < 2 ^ 32"
  then show "computePrecision tp fp = quotient_or_one (unat tp) (unat tp + unat fp)"
    by (simp only: computePrecision_nat unat_add_small)
next
  assume "unat tp + unat fn < 2 ^ 32"
  then show "computeRecall tp fn = quotient_or_one (unat tp) (unat tp + unat fn)"
    by (simp only: computeRecall_nat unat_add_small)
next
  assume a: "unat tp + unat fp + unat fn < 2 ^ 32"
  then have "unat tp + unat fp < 2 ^ 32" by simp
  then have "unat (tp + fp) = unat tp + unat fp" by (rule unat_add_small)
  moreover from this a have "unat (tp + fp + fn) = unat (tp + fp) + unat fn"
    by (intro unat_add_small) simp
  ultimately show "computeIntersectionOverUnion tp fp fn =
      quotient_or_one (unat tp) (unat tp + unat fp + unat fn)"
    by (simp only: computeIntersectionOverUnion_nat)
qed

theorem metrics_are_quotients_witness:
  "unat (1::uint) + unat (2::uint) < 2 ^ 32 \<and>
   computePrecision 1 2 = Finite (11184811 / 33554432) \<and>
   unat (1::uint) + unat (3::uint) < 2 ^ 32 \<and>
   computeRecall 1 3 = Finite (1 / 4) \<and>
   unat (1::uint) + unat (2::uint) + unat (3::uint) < 2 ^ 32 \<and>
   computeIntersectionOverUnion 1 2 3 = Finite (11184811 / 67108864) \<and>
   computePrecision 0 0 = Finite 1 \<and> computeRecall 0 0 = Finite 1 \<and>
   computeIntersectionOverUnion 0 0 0 = Finite 1"
  using metrics_are_quotients [of 1 2 3] metrics_are_quotients [of 0 0 0]
  by (simp add: float_eval)

text \<open>
  Without the bound the claim fails: for TP = FP = \<open>2 ^ 31\<close> the sum wraps to zero and the
  precision is \<open>1.0\<close>, where the quotient of TP by TP + FP is one half.
\<close>

theorem precision_wraps_counterexample:
  "computePrecision 2147483648 2147483648 = Finite 1 \<and>
   quotient_or_one 2147483648 (2147483648 + 2147483648) = Finite (1 / 2)"
  by (simp add: computePrecision_def float_eval)

text \<open>
  Claim C5, as the code has it. As long as the sum of the counters does not wrap around,
  precision, recall and intersection over union lie between \<open>0.0\<close> and \<open>1.0\<close>.
\<close>

theorem metrics_in_unit_interval:
  "(unat tp + unat fp < 2 ^ 32 \<longrightarrow>
      float_le (Finite 0) (computePrecision tp fp) \<and>
      float_le (computePrecision tp fp) (Finite 1)) \<and>
   (unat tp + unat fn < 2 ^ 32 \<longrightarrow>
      float_le (Finite 0) (computeRecall tp fn) \<and>
      float_le (computeRecall tp fn) (Finite 1)) \<and>
   (unat tp + unat fp + unat fn < 2 ^ 32 \<longrightarrow>
      float_le (Finite 0) (computeIntersectionOverUnion tp fp fn) \<and>
      float_le (computeIntersectionOverUnion tp fp fn) (Finite 1))"
proof (intro conjI impI)
  assume a: "unat tp + unat fp < 2 ^ 32"
  then have "computePrecision tp fp = quotient_or_one (unat tp) (unat tp + unat fp)"
    by (simp only: computePrecision_nat unat_add_small)
  moreover obtain r where "quotient_or_one (unat tp) (unat tp + unat fp) = Finite r" "0 \<le> r" "r \<le> 1"
    using quotient_or_one_unit [of "unat tp" "unat tp + unat fp"] a by auto
  ultimately show "float_le (Finite 0) (computePrecision tp fp)"
    "float_le (computePrecision tp fp) (Finite 1)" by simp_all
next
  assume a: "unat tp + unat fn < 2 ^ 32"
  then have "computeRecall tp fn = quotient_or_one (unat tp) (unat tp + unat fn)"
    by (simp only: computeRecall_nat unat_add_small)
  moreover obtain r where "quotient_or_one (unat tp) (unat tp + unat fn) = Finite r" "0 \<le> r" "r \<le> 1"
    using quotient_or_one_unit [of "unat tp" "unat tp + unat fn"] a by auto
  ultimately show "float_le (Finite 0) (computeRecall tp fn)"
    "float_le (computeRecall tp fn) (Finite 1)" by simp_all
next
  assume a: "unat tp + unat fp + unat fn < 2 ^ 32"
  then have "unat tp + unat fp < 2 ^ 32" by simp
  then have "unat (tp + fp) = unat tp + unat fp" by (rule unat_add_small)
  moreover from this a have "unat (tp + fp + fn) = unat (tp + fp) + unat fn"
    by (intro unat_add_small) simp
  ultimately have "computeIntersectionOverUnion tp fp fn =
      quotient_or_one (unat tp) (unat tp + unat fp + unat fn)"
    by (simp only: computeIntersectionOverUnion_nat)
  moreover obtain r where
    "quotient_or_one (unat tp) (unat tp + unat fp + unat fn) = Finite r" "0 \<le> r" "r \<le> 1"
    using quotient_or_one_unit [of "unat tp" "unat tp + unat fp + unat fn"] a by auto
  ultimately show "float_le (Finite 0) (computeIntersectionOverUnion tp fp fn)"
    "float_le (computeIntersectionOverUnion tp fp fn) (Finite 1)" by simp_all
qed

theorem metrics_in_unit_interval_witness:
  "unat (1::uint) + unat (2::uint) < 2 ^ 32 \<and>
   float_le (Finite 0) (computePrecision 1 2) \<and> float_le (computePrecision 1 2) (Finite 1) \<and>
   unat (1::uint) + unat (3::uint) < 2 ^ 32 \<and>
   float_le (Finite 0) (computeRecall 1 3) \<and> float_le (computeRecall 1 3) (Finite 1) \<and>
   unat (1::uint) + unat (2::uint) + unat (3::uint) < 2 ^ 32 \<and>
   float_le (Finite 0) (computeIntersectionOverUnion 1 2 3) \<and>
   float_le (computeIntersectionOverUnion 1 2 3) (Finite 1)"
  using metrics_in_unit_interval [of 1 2 3] by simp

text \<open>
  Without the bound the claim fails: for TP = \<open>2 ^ 32 - 1\<close> and FP = 2 the sum wraps to 1
  and the precision is \<open>4294967296.0\<close>.
\<close>

theorem precision_above_one_counterexample:
  "computePrecision 4294967295 2 = Finite 4294967296 \<and>
   \<not> float_le (computePrecision 4294967295 2) (Finite 1)"
  by (simp add: computePrecision_def float_eval)

text \<open>
  The scenario of the specification, one true positive, one false negative and one true
  negative: precision \<open>1.0\<close>, recall and intersection over union \<open>0.5\<close>.
\<close>

lemma scenario_metrics:
  "computePrecision 1 0 = Finite 1 \<and> computeRecall 1 1 = Finite (1 / 2) \<and>
   computeIntersectionOverUnion 1 0 1 = Finite (1 / 2)"
  by (simp add: computePrecision_def computeRecall_def computeIntersectionOverUnion_def
      float_eval)

section \<open>The range filter\<close>

lemma filterEvaluatedPoints_loop_step:
  "filterEvaluatedPoints_loop cfg (p # ps) n =
     (filtered cfg p # fst (filterEvaluatedPoints_loop cfg ps (if within_range cfg p then n + 1 else n)),
      snd (filterEvaluatedPoints_loop cfg ps (if within_range cfg p then n + 1 else n)))"
proof (cases "within_range cfg p")
  case True
  then have c: "float_ge (distance_to_sensor p) (min_range cfg) \<and>
      float_le (distance_to_sensor p) (max_range cfg)"
    by (simp add: within_range_def float_ge_def)
  have "filtered cfg p = p\<lparr>ready_for_evaluation := True\<rparr>"
    using True by (simp add: filtered_def)
  then show ?thesis using True c by (simp add: split_beta)
next
  case False
  then have c: "\<not> (float_ge (distance_to_sensor p) (min_range cfg) \<and>
      float_le (distance_to_sensor p) (max_range cfg))"
    by (simp add: within_range_def float_ge_def)
  have "filtered cfg p = p" using False by (simp add: filtered_def)
  then show ?thesis using False c by (auto simp add: split_beta)
qed

lemma filterEvaluatedPoints_loop_points:
  "fst (filterEvaluatedPoints_loop cfg ps n) = map (filtered cfg) ps"
proof (induction ps arbitrary: n)
  case Nil
  show ?case by simp
next
  case (Cons p ps)
  show ?case unfolding filterEvaluatedPoints_loop_step by (simp add: Cons.IH)
qed

lemma filterEvaluatedPoints_loop_count:
  "snd (filterEvaluatedPoints_loop cfg ps n) = n + of_nat (length (filter (within_range cfg) ps))"
proof (induction ps arbitrary: n)
  case Nil
  show ?case by simp
next
  case (Cons p ps)
  show ?case unfolding filterEvaluatedPoints_loop_step by (simp add: Cons.IH)
qed

lemma filterEvaluatedPoints_eq:
  "filterEvaluatedPoints e cloud =
     (of_nat (length (filter (within_range (config_m e)) (points cloud))),
      cloud\<lparr>points := map (filtered (config_m e)) (points cloud)\<rparr>)"
  using filterEvaluatedPoints_loop_points [of "config_m e" "points cloud" 0]
        filterEvaluatedPoints_loop_count [of "config_m e" "points cloud" 0]
  by (simp add: filterEvaluatedPoints_def split_beta)

lemma sint_of_nat_small:
  assumes "n < 2 ^ 31"
  shows "sint (of_nat n :: cint) = int n"
proof -
  have "int n < 2 ^ 31" using assms by (simp only: of_nat_less_iff [symmetric, where 'a = int]) simp
  then have "signed_take_bit 31 (int n) = int n"
    by (intro signed_take_bit_int_eq_self) simp_all
  then show ?thesis by (simp add: signed_of_nat)
qed

section \<open>The confusion matrix\<close>

lemmas outcome_defs =
  is_true_positive_def is_false_positive_def is_true_negative_def is_false_negative_def

lemma count_loop_eq:
  "count_loop chk ps (tp, fp, tn, fn) =
     (tp + of_nat (length (filter (\<lambda>p. ready_for_evaluation p \<and> is_true_positive chk p) ps)),
      fp + of_nat (length (filter (\<lambda>p. ready_for_evaluation p \<and> is_false_positive chk p) ps)),
      tn + of_nat (length (filter (\<lambda>p. ready_for_evaluation p \<and> is_true_negative chk p) ps)),
      fn + of_nat (length (filter (\<lambda>p. ready_for_evaluation p \<and> is_false_negative chk p) ps)))"
proof (induction ps arbitrary: tp fp tn fn)
  case Nil
  show ?case by simp
next
  case (Cons p ps)
  show ?case by (simp add: Cons.IH outcome_defs)
qed

lemma outcomes_partition:
  "length (filter (\<lambda>p. ready_for_evaluation p \<and> is_true_positive chk p) ps) +
   length (filter (\<lambda>p. ready_for_evaluation p \<and> is_false_positive chk p) ps) +
   length (filter (\<lambda>p. ready_for_evaluation p \<and> is_true_negative chk p) ps) +
   length (filter (\<lambda>p. ready_for_evaluation p \<and> is_false_negative chk p) ps) =
   length (filter ready_for_evaluation ps)"
  by (induction ps) (auto simp add: outcome_defs)

lemma uint_of_nat_small:
  assumes "n < 2 ^ 32"
  shows "uint (of_nat n :: uint) = int n"
proof -
  have "unat (of_nat n :: uint) = n" using assms by (simp add: unat_of_nat)
  then show ?thesis by (simp only: uint_nat)
qed

lemma count_loop_total:
  assumes "length ps < 2 ^ 32"
      and "count_loop chk ps (0, 0, 0, 0) = (tp, fp, tn, fn)"
  shows "uint tp + uint fp + uint tn + uint fn = int (length (filter ready_for_evaluation ps))"
proof -
  let ?k = "\<lambda>outcome. length (filter (\<lambda>p. ready_for_evaluation p \<and> outcome chk p) ps)"
  have small: "\<And>P. length (filter P ps) < 2 ^ 32"
    using assms(1) length_filter_le [of _ ps] by (meson le_less_trans)
  have "tp = of_nat (?k is_true_positive)" "fp = of_nat (?k is_false_positive)"
       "tn = of_nat (?k is_true_negative)" "fn = of_nat (?k is_false_negative)"
    using assms(2) by (simp_all add: count_loop_eq)
  then have "uint tp = int (?k is_true_positive)" "uint fp = int (?k is_false_positive)"
       "uint tn = int (?k is_true_negative)" "uint fn = int (?k is_false_negative)"
    by (simp_all only: uint_of_nat_small [OF small])
  then show ?thesis
    using outcomes_partition [of chk ps] by (simp only: of_nat_add [symmetric])
qed

lemma filter_ready_filtered:
  "length (filter ready_for_evaluation (map (filtered cfg) ps)) =
   length (filter (\<lambda>p. ready_for_evaluation p \<or> within_range cfg p) ps)"
  by (induction ps) (simp_all add: filtered_def)

lemma filter_ready_or_within:
  "\<forall>p\<in>set ps. ready_for_evaluation p \<longrightarrow> within_range cfg p \<Longrightarrow>
   filter (\<lambda>p. ready_for_evaluation p \<or> within_range cfg p) ps = filter (within_range cfg) ps"
  by (rule filter_cong) auto

section \<open>The range buckets\<close>

lemma push_back_4:
  "push_back [a, b, c, d] 0 x = Some [a @ [x], b, c, d]"
  "push_back [a, b, c, d] (Suc 0) x = Some [a, b @ [x], c, d]"
  "push_back [a, b, c, d] 2 x = Some [a, b, c @ [x], d]"
  "push_back [a, b, c, d] 3 x = Some [a, b, c, d @ [x]]"
  by (simp_all add: push_back_def numeral_2_eq_2 numeral_3_eq_3)

lemma evaluateRanges_loop_4:
  "evaluateRanges_loop ps [a, b, c, d] =
     Some [a @ distances_of (is_true_positive cluster_level_dynamic) ps,
           b @ distances_of (is_false_positive cluster_level_dynamic) ps,
           c @ distances_of (is_true_negative cluster_level_dynamic) ps,
           d @ distances_of (is_false_negative cluster_level_dynamic) ps]"
proof (induction ps arbitrary: a b c d)
  case Nil
  show ?case by (simp add: distances_of_def)
next
  case (Cons p ps)
  show ?case by (simp add: Cons.IH push_back_4 distances_of_def outcome_defs)
qed

lemma list_of_length_4:
  assumes "length rs = 4"
  shows "rs = [rs ! 0, rs ! 1, rs ! 2, rs ! 3]"
proof -
  from assms obtain a b c d where "rs = [a, b, c, d]"
    by (auto simp add: length_Suc_conv numeral_eq_Suc)
  then show ?thesis by (simp add: numeral_2_eq_2 numeral_3_eq_3)
qed

lemma evaluateRanges_loop_eq:
  assumes "length rs = 4"
  shows "evaluateRanges_loop ps rs =
     Some [rs ! 0 @ distances_of (is_true_positive cluster_level_dynamic) ps,
           rs ! 1 @ distances_of (is_false_positive cluster_level_dynamic) ps,
           rs ! 2 @ distances_of (is_true_negative cluster_level_dynamic) ps,
           rs ! 3 @ distances_of (is_false_negative cluster_level_dynamic) ps]"
  using evaluateRanges_loop_4 [of ps "rs ! 0" "rs ! 1" "rs ! 2" "rs ! 3"]
  by (simp only: list_of_length_4 [OF assms, symmetric])

lemma distances_partition:
  "length (distances_of (is_true_positive chk) ps) +
   length (distances_of (is_false_positive chk) ps) +
   length (distances_of (is_true_negative chk) ps) +
   length (distances_of (is_false_negative chk) ps) =
   length (filter ready_for_evaluation ps)"
  using outcomes_partition [of chk ps] by (simp add: distances_of_def)

section \<open>Claims about the range filter and the confusion matrix\<close>

lemmas example_defs =
  example_config_def example_point_def example_cloud_def stale_cloud_def marked_cloud_def
  empty_world_def example_world_def example_evaluator_def example_labeller_def example_time_def

lemmas files_eval = files_def path_of_def

text \<open>
  Claim C3, as the code has it. \<^verbatim>\<open>filterEvaluatedPoints\<close> sets the flag of every point whose
  distance lies in the window and leaves the flag of every other point as it was; it changes
  no other field of a point and nothing else of the cloud; it returns the number of points
  in the window (read as a signed number, for a cloud of fewer than \<open>2 ^ 31\<close> points).
\<close>

theorem filterEvaluatedPoints_sets_flags:
  "filterEvaluatedPoints e cloud = (n, cloud1) \<Longrightarrow>
     cloud1 = cloud\<lparr>points := map (filtered (config_m e)) (points cloud)\<rparr> \<and>
     (\<forall>p. filtered (config_m e) p =
        p\<lparr>ready_for_evaluation := ready_for_evaluation p \<or> within_range (config_m e) p\<rparr>) \<and>
     n = of_nat (length (filter (within_range (config_m e)) (points cloud))) \<and>
     (length (points cloud) < 2 ^ 31 \<longrightarrow>
        sint n = int (length (filter (within_range (config_m e)) (points cloud))))"
proof -
  assume a: "filterEvaluatedPoints e cloud = (n, cloud1)"
  let ?k = "length (filter (within_range (config_m e)) (points cloud))"
  from a have n: "n = of_nat ?k"
    and c: "cloud1 = cloud\<lparr>points := map (filtered (config_m e)) (points cloud)\<rparr>"
    by (simp_all add: filterEvaluatedPoints_eq)
  have "length (points cloud) < 2 ^ 31 \<longrightarrow> sint n = int ?k"
  proof
    assume "length (points cloud) < 2 ^ 31"
    moreover have "?k \<le> length (points cloud)" by (rule length_filter_le)
    ultimately have "?k < 2 ^ 31" by (rule le_less_trans [rotated])
    then show "sint n = int ?k" unfolding n by (rule sint_of_nat_small)
  qed
  then show ?thesis using n c by (simp add: filtered_def)
qed

theorem filterEvaluatedPoints_sets_flags_witness:
  "filterEvaluatedPoints example_evaluator example_cloud =
     (3, example_cloud\<lparr>points := [example_point True True True 2, example_point True False True 3,
                                   example_point True False False 5]\<rparr>) \<and>
   length (points example_cloud) < 2 ^ 31 \<and>
   sint (3 :: cint) = int (length (filter (within_range example_config) (points example_cloud)))"
proof -
  have r: "filterEvaluatedPoints example_evaluator example_cloud =
     (3, example_cloud\<lparr>points := [example_point True True True 2, example_point True False True 3,
                                   example_point True False False 5]\<rparr>)"
    by (simp add: filterEvaluatedPoints_def float_ge_def example_defs)
  have l: "length (points example_cloud) < 2 ^ 31" by (simp add: example_defs)
  from filterEvaluatedPoints_sets_flags [OF r] l show ?thesis
    using r by (simp add: example_defs)
qed

text \<open>
  The claim as it is written fails for a point that arrives with its flag set: the flag
  stays set although the distance 100 is outside the window from 0 to 10.
\<close>

theorem filterEvaluatedPoints_keeps_flag_counterexample:
  "filterEvaluatedPoints example_evaluator stale_cloud = (0, stale_cloud) \<and>
   ready_for_evaluation (example_point True False False 100) \<and>
   \<not> within_range example_config (example_point True False False 100)"
  by (simp add: filterEvaluatedPoints_def float_ge_def within_range_def example_defs)

lemma evaluateCloudAtLevel_known:
  "check_level_of level = Some check_level \<Longrightarrow>
   evaluateCloudAtLevel cloud level output_file w =
     stream_write output_file (metrics_cells (count_loop check_level (points cloud) (0, 0, 0, 0))) w"
  by (simp add: evaluateCloudAtLevel_def)

text \<open>
  Claim C4, as the code has it. For a frame of fewer than \<open>2 ^ 31\<close> points and a level among
  point, cluster and object, the four counters that \<^verbatim>\<open>evaluateCloudAtLevel\<close> writes add up to
  the number of points whose flag is set after the range filter. That is the count the range
  filter returned when no point outside the window arrived with its flag set.
\<close>

theorem confusion_matrix_total:
  assumes "check_level_of level = Some check_level"
    and "length (points cloud) < 2 ^ 31"
    and "filterEvaluatedPoints e cloud = (evaluated_points, cloud1)"
    and "count_loop check_level (points cloud1) (0, 0, 0, 0) = (tp, fp, tn, fn)"
  shows "evaluateCloudAtLevel cloud1 level output_file w =
           stream_write output_file (metrics_cells (tp, fp, tn, fn)) w \<and>
         uint tp + uint fp + uint tn + uint fn =
           int (length (filter ready_for_evaluation (points cloud1))) \<and>
         ((\<forall>p\<in>set (points cloud). ready_for_evaluation p \<longrightarrow> within_range (config_m e) p) \<longrightarrow>
            uint tp + uint fp + uint tn + uint fn = sint evaluated_points)"
proof -
  let ?cfg = "config_m e"
  let ?k = "length (filter (within_range ?cfg) (points cloud))"
  from assms(3) have n: "evaluated_points = of_nat ?k"
    and c: "points cloud1 = map (filtered ?cfg) (points cloud)"
    by (auto simp add: filterEvaluatedPoints_eq)
  have len: "length (points cloud1) < 2 ^ 32" using assms(2) by (simp add: c)
  have w: "evaluateCloudAtLevel cloud1 level output_file w =
      stream_write output_file (metrics_cells (tp, fp, tn, fn)) w"
    by (simp only: evaluateCloudAtLevel_known [OF assms(1)] assms(4))
  have total: "uint tp + uint fp + uint tn + uint fn =
      int (length (filter ready_for_evaluation (points cloud1)))"
    using len assms(4) by (rule count_loop_total)
  have "uint tp + uint fp + uint tn + uint fn = sint evaluated_points"
    if clean: "\<forall>p\<in>set (points cloud). ready_for_evaluation p \<longrightarrow> within_range ?cfg p"
  proof -
    have "length (filter ready_for_evaluation (points cloud1)) = ?k"
      unfolding c filter_ready_filtered
      by (simp only: filter_ready_or_within [OF clean])
    moreover have "?k \<le> length (points cloud)" by (rule length_filter_le)
    then have "?k < 2 ^ 31" using assms(2) by (rule le_less_trans)
    then have "sint evaluated_points = int ?k" unfolding n by (rule sint_of_nat_small)
    ultimately show ?thesis using total by simp
  qed
  with w total show ?thesis by blast
qed

theorem confusion_matrix_total_witness:
  "check_level_of ''cluster'' = Some cluster_level_dynamic \<and>
   length (points example_cloud) < 2 ^ 31 \<and>
   fst (filterEvaluatedPoints example_evaluator example_cloud) = 3 \<and>
   count_loop cluster_level_dynamic
     (points (snd (filterEvaluatedPoints example_evaluator example_cloud))) (0, 0, 0, 0) =
     (1, 0, 1, 1) \<and>
   list_all (\<lambda>p. \<not> ready_for_evaluation p) (points example_cloud) \<and>
   uint (1 :: uint) + uint (0 :: uint) + uint (1 :: uint) + uint (1 :: uint) = sint (3 :: cint)"
proof -
  have h1: "check_level_of ''cluster'' = Some cluster_level_dynamic"
    by (simp add: check_level_of_def)
  have h2: "length (points example_cloud) < 2 ^ 31" by (simp add: example_defs)
  have f: "filterEvaluatedPoints example_evaluator example_cloud =
     (3, example_cloud\<lparr>points := [example_point True True True 2, example_point True False True 3,
                                   example_point True False False 5]\<rparr>)"
    by (simp add: filterEvaluatedPoints_def float_ge_def example_defs)
  have h4: "count_loop cluster_level_dynamic
     (points (example_cloud\<lparr>points := [example_point True True True 2,
        example_point True False True 3, example_point True False False 5]\<rparr>)) (0, 0, 0, 0) =
     (1, 0, 1, 1)"
    by (simp add: example_defs)
  have h5: "\<forall>p\<in>set (points example_cloud).
      ready_for_evaluation p \<longrightarrow> within_range (config_m example_evaluator) p"
    by (simp add: example_defs)
  from confusion_matrix_total [OF h1 h2 f h4, of "''out/scores.csv''" empty_world] h5
  show ?thesis using h1 h2 f h4 by (simp add: example_defs)
qed

text \<open>
  The claim as it is written fails for a point that arrives with its flag set and lies
  outside the window: the range filter returns 0, and the point level counts one true
  negative.
\<close>

theorem confusion_matrix_total_counterexample:
  "filterEvaluatedPoints example_evaluator stale_cloud = (0, stale_cloud) \<and>
   files (evaluateCloudAtLevel stale_cloud ''point'' ''out/scores.csv'' empty_world)
     ''out/scores.csv'' = Some (metrics_cells (0, 0, 1, 0))"
  by (simp add: filterEvaluatedPoints_def float_ge_def evaluateCloudAtLevel_def
      check_level_of_def stream_write_def files_eval example_defs)

section \<open>Claims about the flag and the range buckets\<close>

lemma evaluateRanges_eq:
  assumes "length (ranges_m e) = 4"
  shows "evaluateRanges e cloud w =
     Some (e\<lparr>ranges_m :=
               [ranges_m e ! 0 @ distances_of (is_true_positive cluster_level_dynamic) (points cloud),
                ranges_m e ! 1 @ distances_of (is_false_positive cluster_level_dynamic) (points cloud),
                ranges_m e ! 2 @ distances_of (is_true_negative cluster_level_dynamic) (points cloud),
                ranges_m e ! 3 @ distances_of (is_false_negative cluster_level_dynamic) (points cloud)]\<rparr>,
           stream_write (output_directory_m e @ ''/'' @ ranges_file_name)
             (chars ''TP'' @
              range_cells (ranges_m e ! 0 @
                distances_of (is_true_positive cluster_level_dynamic) (points cloud)) @
              chars [newline, CHR ''F'', CHR ''P''] @
              range_cells (ranges_m e ! 1 @
                distances_of (is_false_positive cluster_level_dynamic) (points cloud)) @
              chars [newline, CHR ''T'', CHR ''N''] @
              range_cells (ranges_m e ! 1 @
                distances_of (is_false_positive cluster_level_dynamic) (points cloud)) @
              chars [newline, CHR ''F'', CHR ''N''] @
              range_cells (ranges_m e ! 1 @
                distances_of (is_false_positive cluster_level_dynamic) (points cloud)) @
              chars [newline])
             (open_trunc (output_directory_m e @ ''/'' @ ranges_file_name) w))"
  by (simp add: evaluateRanges_def evaluateRanges_loop_eq [OF assms] bucket_def Let_def)

text \<open>
  Claim C9. \<^verbatim>\<open>filterEvaluatedPoints\<close> never clears a flag: a point outside the window is
  left as it arrived, and a point that arrived with its flag set keeps it whatever its
  distance. Every confusion matrix and the range buckets computed afterwards count the points
  that are in the window or arrived with their flag set.
\<close>

theorem flag_is_never_reset:
  assumes "filterEvaluatedPoints e cloud = (n, cloud1)"
  shows "length (points cloud1) = length (points cloud) \<and>
         (\<forall>i<length (points cloud).
            (ready_for_evaluation (points cloud ! i) \<longrightarrow>
               ready_for_evaluation (points cloud1 ! i)) \<and>
            (\<not> within_range (config_m e) (points cloud ! i) \<longrightarrow>
               points cloud1 ! i = points cloud ! i)) \<and>
         (\<forall>check_level tp fp tn fn.
            length (points cloud) < 2 ^ 32 \<longrightarrow>
            count_loop check_level (points cloud1) (0, 0, 0, 0) = (tp, fp, tn, fn) \<longrightarrow>
            uint tp + uint fp + uint tn + uint fn =
              int (length (filter (\<lambda>p. ready_for_evaluation p \<or> within_range (config_m e) p)
                     (points cloud)))) \<and>
         (length (ranges_m e) = 4 \<longrightarrow>
            (\<exists>rs. evaluateRanges_loop (points cloud1) (ranges_m e) = Some rs \<and>
               sum_list (map length rs) =
                 sum_list (map length (ranges_m e)) +
                 length (filter (\<lambda>p. ready_for_evaluation p \<or> within_range (config_m e) p)
                   (points cloud))))"
proof -
  let ?cfg = "config_m e"
  let ?k = "length (filter (\<lambda>p. ready_for_evaluation p \<or> within_range ?cfg p) (points cloud))"
  from assms have c: "points cloud1 = map (filtered ?cfg) (points cloud)"
    by (auto simp add: filterEvaluatedPoints_eq)
  have ready: "length (filter ready_for_evaluation (points cloud1)) = ?k"
    unfolding c by (rule filter_ready_filtered)
  have 1: "length (points cloud1) = length (points cloud)" by (simp add: c)
  have 2: "\<forall>i<length (points cloud).
      (ready_for_evaluation (points cloud ! i) \<longrightarrow> ready_for_evaluation (points cloud1 ! i)) \<and>
      (\<not> within_range ?cfg (points cloud ! i) \<longrightarrow> points cloud1 ! i = points cloud ! i)"
    by (simp add: c filtered_def)
  have 3: "\<forall>check_level tp fp tn fn.
      length (points cloud) < 2 ^ 32 \<longrightarrow>
      count_loop check_level (points cloud1) (0, 0, 0, 0) = (tp, fp, tn, fn) \<longrightarrow>
      uint tp + uint fp + uint tn + uint fn = int ?k"
  proof (intro allI impI)
    fix check_level tp fp tn fn
    assume "length (points cloud) < 2 ^ 32"
      and l: "count_loop check_level (points cloud1) (0, 0, 0, 0) = (tp, fp, tn, fn)"
    then have "length (points cloud1) < 2 ^ 32" by (simp add: c)
    from count_loop_total [OF this l] show "uint tp + uint fp + uint tn + uint fn = int ?k"
      by (simp only: ready)
  qed
  have 4: "length (ranges_m e) = 4 \<longrightarrow>
      (\<exists>rs. evaluateRanges_loop (points cloud1) (ranges_m e) = Some rs \<and>
         sum_list (map length rs) = sum_list (map length (ranges_m e)) + ?k)"
  proof
    assume len: "length (ranges_m e) = 4"
    have "sum_list (map length (ranges_m e)) =
        length (ranges_m e ! 0) + length (ranges_m e ! 1) + length (ranges_m e ! 2) +
        length (ranges_m e ! 3)"
      by (subst list_of_length_4 [OF len]) simp
    then show "\<exists>rs. evaluateRanges_loop (points cloud1) (ranges_m e) = Some rs \<and>
        sum_list (map length rs) = sum_list (map length (ranges_m e)) + ?k"
      using distances_partition [of cluster_level_dynamic "points cloud1"] ready
      by (simp add: evaluateRanges_loop_eq [OF len])
  qed
  from 1 2 3 4 show ?thesis by blast
qed

theorem flag_is_never_reset_witness:
  "filterEvaluatedPoints example_evaluator stale_cloud = (0, stale_cloud) \<and>
   ready_for_evaluation (points stale_cloud ! 0) \<and>
   \<not> within_range (config_m example_evaluator) (points stale_cloud ! 0) \<and>
   length (points stale_cloud) < 2 ^ 32 \<and>
   count_loop cluster_level_dynamic (points stale_cloud) (0, 0, 0, 0) = (0, 0, 1, 0) \<and>
   length (ranges_m example_evaluator) = 4 \<and>
   evaluateRanges_loop (points stale_cloud) (ranges_m example_evaluator) =
     Some [[], [], [Finite 100], []]"
proof -
  have f: "filterEvaluatedPoints example_evaluator stale_cloud = (0, stale_cloud)"
    by (simp add: filterEvaluatedPoints_def float_ge_def example_defs)
  from flag_is_never_reset [OF f] show ?thesis
    using f by (simp add: within_range_def push_back_def example_defs)
qed

text \<open>
  Claim C2 at a concrete frame. With four empty buckets and four marked points, a false
  positive at distance 7, a true negative at 5, a false negative at 3 and a true positive at
  2, \<^verbatim>\<open>evaluateRanges\<close> fills the four buckets as the claim says, and then writes the false
  positive bucket on the lines \<^verbatim>\<open>FP\<close>, \<^verbatim>\<open>TN\<close> and \<^verbatim>\<open>FN\<close>: the file reads
  \<^verbatim>\<open>TP,2\<close>, \<^verbatim>\<open>FP,7\<close>, \<^verbatim>\<open>TN,7\<close>, \<^verbatim>\<open>FN,7\<close>, where the claim has \<^verbatim>\<open>TN,5\<close> and \<^verbatim>\<open>FN,3\<close>.
\<close>

theorem evaluateRanges_writes_false_positives_three_times:
  "(case evaluateRanges example_evaluator marked_cloud empty_world of
      None \<Rightarrow> False
    | Some (e, w) \<Rightarrow>
        ranges_m e = [[Finite 2], [Finite 7], [Finite 5], [Finite 3]] \<and>
        files w ''out/ranges.csv'' =
          Some (chars ''TP'' @ [comma, FloatText (Finite 2)] @ [Chr newline] @
                chars ''FP'' @ [comma, FloatText (Finite 7)] @ [Chr newline] @
                chars ''TN'' @ [comma, FloatText (Finite 7)] @ [Chr newline] @
                chars ''FN'' @ [comma, FloatText (Finite 7)] @ [Chr newline]))"
  by (simp add: evaluateRanges_def bucket_def push_back_def range_cells_def stream_write_def
      open_trunc_def chars_def ranges_file_name_def Let_def files_eval example_defs)

section \<open>Paths\<close>

lemma split_path_not_Nil [simp]: "split_path p \<noteq> []"
  by (induction p) (simp_all split: list.splits)

lemma split_path_append:
  "split_path (a @ CHR ''/'' # b) = split_path a @ split_path b"
proof (induction a)
  case Nil
  show ?case by simp
next
  case (Cons c a)
  obtain x xs where s: "split_path a = x # xs"
    using split_path_not_Nil [of a] by (cases "split_path a") simp_all
  show ?case by (simp add: Cons.IH s)
qed

lemma split_path_simple: "CHR ''/'' \<notin> set n \<Longrightarrow> split_path n = [n]"
  by (induction n) auto

lemma path_of_append:
  "path_of (d @ ''/'' @ r) = (fst (path_of d) \<or> d = [], snd (path_of d) @ snd (path_of r))"
proof -
  have "split_path (d @ ''/'' @ r) = split_path d @ split_path r"
    using split_path_append [of d r] by simp
  moreover have "(case d @ ''/'' @ r of [] \<Rightarrow> False | c # cs \<Rightarrow> c = CHR ''/'') =
      ((case d of [] \<Rightarrow> False | c # cs \<Rightarrow> c = CHR ''/'') \<or> d = [])"
    by (cases d) simp_all
  ultimately show ?thesis unfolding path_of_def by simp
qed

text \<open>A name of one component: not empty, not \<^verbatim>\<open>.\<close>, without a \<^verbatim>\<open>/\<close>.\<close>

lemma path_of_name:
  assumes "CHR ''/'' \<notin> set n" "n \<noteq> []" "n \<noteq> ''.''"
  shows "snd (path_of n) = [n]"
  using assms by (simp add: path_of_def split_path_simple)

lemma path_of_child:
  assumes "CHR ''/'' \<notin> set n" "n \<noteq> []" "n \<noteq> ''.''"
  shows "path_of (d @ ''/'' @ n) = (fst (path_of d) \<or> d = [], snd (path_of d) @ [n])"
  by (simp only: path_of_append path_of_name [OF assms])

lemma file_names_simple:
  "CHR ''/'' \<notin> set scores_file_name" "scores_file_name \<noteq> []" "scores_file_name \<noteq> ''.''"
  "CHR ''/'' \<notin> set ranges_file_name" "ranges_file_name \<noteq> []" "ranges_file_name \<noteq> ''.''"
  "CHR ''/'' \<notin> set timings_file_name" "timings_file_name \<noteq> []" "timings_file_name \<noteq> ''.''"
  by (simp_all add: scores_file_name_def ranges_file_name_def timings_file_name_def)

lemma path_of_files:
  "path_of (d @ ''/'' @ scores_file_name) =
     (fst (path_of d) \<or> d = [], snd (path_of d) @ [scores_file_name])"
  "path_of (d @ ''/'' @ ranges_file_name) =
     (fst (path_of d) \<or> d = [], snd (path_of d) @ [ranges_file_name])"
  "path_of (d @ ''/'' @ timings_file_name) =
     (fst (path_of d) \<or> d = [], snd (path_of d) @ [timings_file_name])"
  by (rule path_of_child; rule file_names_simple)+

lemma paths_distinct:
  "path_of (d @ ''/'' @ scores_file_name) \<noteq> path_of (d @ ''/'' @ ranges_file_name)"
  "path_of (d @ ''/'' @ scores_file_name) \<noteq> path_of (d @ ''/'' @ timings_file_name)"
  "path_of (d @ ''/'' @ ranges_file_name) \<noteq> path_of (d @ ''/'' @ timings_file_name)"
  "path_of (d @ ''/'' @ ranges_file_name) \<noteq> path_of (d @ ''/'' @ scores_file_name)"
  "path_of (d @ ''/'' @ timings_file_name) \<noteq> path_of (d @ ''/'' @ scores_file_name)"
  "path_of (d @ ''/'' @ timings_file_name) \<noteq> path_of (d @ ''/'' @ ranges_file_name)"
  unfolding path_of_files
  by (simp_all add: scores_file_name_def ranges_file_name_def timings_file_name_def)

section \<open>Streams and files\<close>

lemma contents_simps [simp]:
  "file_table w (path_of p) = None \<Longrightarrow> contents w p = []"
  "file_table w (path_of p) = Some c \<Longrightarrow> contents w p = c"
  by (simp_all add: contents_def files_def)

lemma stream_write_simps [simp]:
  "file_table (stream_write p cs w) = (file_table w)(path_of p \<mapsto> contents w p @ cs)"
  "directories (stream_write p cs w) = directories w"
  "glog (stream_write p cs w) = glog w"
  by (simp_all add: stream_write_def contents_def)

lemma open_trunc_simps [simp]:
  "file_table (open_trunc p w) = (file_table w)(path_of p \<mapsto> [])"
  "directories (open_trunc p w) = directories w"
  "glog (open_trunc p w) = glog w"
  by (simp_all add: open_trunc_def)

lemma open_app_simps [simp]:
  "file_table (open_app p w) = (file_table w)(path_of p \<mapsto> contents w p)"
  "directories (open_app p w) = directories w"
  "glog (open_app p w) = glog w"
  by (simp_all add: open_app_def contents_def)

lemma log_simps [simp]:
  "file_table (log_info m w) = file_table w"
  "directories (log_info m w) = directories w"
  "glog (log_info m w) = glog w @ [LogInfo m]"
  "file_table (log_error m w) = file_table w"
  "directories (log_error m w) = directories w"
  "glog (log_error m w) = glog w @ [LogError m]"
  by (simp_all add: log_info_def log_error_def)


section \<open>The loop over the levels\<close>


lemma file_table_evaluateCloudAtLevel:
  "file_table (evaluateCloudAtLevel cloud level f w) =
     (case check_level_of level of
        None \<Rightarrow> file_table w
      | Some check_level \<Rightarrow>
          (file_table w)(path_of f \<mapsto> contents w f @
             metrics_cells (count_loop check_level (points cloud) (0, 0, 0, 0))))"
  by (simp add: evaluateCloudAtLevel_def split: option.splits)

lemma directories_evaluateCloudAtLevel [simp]:
  "directories (evaluateCloudAtLevel cloud level f w) = directories w"
  by (simp add: evaluateCloudAtLevel_def split: option.splits)

lemma directories_evaluate_levels [simp]:
  "directories (evaluate_levels cloud ls f w) = directories w"
  by (induction ls arbitrary: w) simp_all

lemma file_table_evaluate_levels:
  assumes "file_table w (path_of f) = Some c"
  shows "file_table (evaluate_levels cloud ls f w) = (file_table w)(path_of f \<mapsto> c @ levels_cells cloud ls)"
  using assms
proof (induction ls arbitrary: w c)
  case Nil
  then show ?case by (auto simp add: levels_cells_def)
next
  case (Cons l ls)
  let ?w1 = "evaluateCloudAtLevel cloud l f w"
  show ?case
  proof (cases "check_level_of l")
    case None
    then have w1: "file_table ?w1 = file_table w" by (simp add: file_table_evaluateCloudAtLevel)
    then have "file_table ?w1 (path_of f) = Some c" using Cons.prems by simp
    from Cons.IH [OF this]
    have "file_table (evaluate_levels cloud (l # ls) f w) = (file_table ?w1)(path_of f \<mapsto> c @ levels_cells cloud ls)"
      by (simp only: evaluate_levels.simps)
    moreover have "levels_cells cloud (l # ls) = levels_cells cloud ls"
      using None by (simp add: levels_cells_def)
    ultimately show ?thesis by (simp only: w1)
  next
    case (Some chk)
    let ?m = "metrics_cells (count_loop chk (points cloud) (0, 0, 0, 0))"
    have w1: "file_table ?w1 = (file_table w)(path_of f \<mapsto> c @ ?m)"
      using Cons.prems Some by (simp add: file_table_evaluateCloudAtLevel)
    then have "file_table ?w1 (path_of f) = Some (c @ ?m)" by simp
    from Cons.IH [OF this]
    have "file_table (evaluate_levels cloud (l # ls) f w) =
        (file_table ?w1)(path_of f \<mapsto> (c @ ?m) @ levels_cells cloud ls)"
      by (simp only: evaluate_levels.simps)
    also have "\<dots> = (file_table w)(path_of f \<mapsto> c @ ?m @ levels_cells cloud ls)"
      unfolding w1 by simp
    also have "?m @ levels_cells cloud ls = levels_cells cloud (l # ls)"
      using Some by (simp add: levels_cells_def)
    finally show ?thesis .
  qed
qed

section \<open>One frame\<close>

lemma writeTimingsToFile_simps [simp]:
  "file_table (writeTimingsToFile timing e w) =
     (file_table w)(path_of (output_directory_m e @ ''/'' @ timings_file_name) \<mapsto>
        chars timing @ endl)"
  "directories (writeTimingsToFile timing e w) = directories w"
  "glog (writeTimingsToFile timing e w) = glog w"
  by (simp_all add: writeTimingsToFile_def Let_def)

lemma line_breaks_append [simp]: "line_breaks (xs @ ys) = line_breaks xs + line_breaks ys"
  by (simp add: line_breaks_def)

lemma line_breaks_Nil [simp]: "line_breaks [] = 0"
  by (simp add: line_breaks_def)

lemma line_breaks_Cons [simp]:
  "line_breaks (c # cs) = (if c = Chr newline then 1 else 0) + line_breaks cs"
  by (simp add: line_breaks_def)

lemma comma_not_newline [simp]: "comma \<noteq> Chr newline"
  by (simp add: comma_def newline_def)

lemma line_breaks_metrics_cells [simp]: "line_breaks (metrics_cells c) = 0"
  by (cases c) (simp add: metrics_cells_def)

lemma line_breaks_levels_cells [simp]: "line_breaks (levels_cells cloud ls) = 0"
  by (induction ls) (simp_all add: levels_cells_def split: option.splits)

lemma line_breaks_score_row: "line_breaks (score_row e cloud) = 1"
  by (simp add: score_row_def split_beta endl_def)

lemma score_row_cong:
  "config_m e' = config_m e \<Longrightarrow> evaluated_levels_m e' = evaluated_levels_m e \<Longrightarrow>
   score_row e' cloud = score_row e cloud"
  by (simp add: score_row_def filterEvaluatedPoints_def)

lemma writeScoresToFile_effect:
  assumes inv: "evaluate_ranges (config_m e) \<longrightarrow> length (ranges_m e) = 4"
  obtains rs w' where
    "writeScoresToFile e cloud w = Some (e\<lparr>ranges_m := rs\<rparr>, snd (filterEvaluatedPoints e cloud), w')"
    "evaluate_ranges (config_m e) \<longrightarrow> length rs = 4"
    "\<not> evaluate_ranges (config_m e) \<longrightarrow> rs = ranges_m e"
    "directories w' = directories w"
    "file_table w' (path_of (output_directory_m e @ ''/'' @ scores_file_name)) =
       Some (contents w (output_directory_m e @ ''/'' @ scores_file_name) @ score_row e cloud)"
    "\<And>k. k \<noteq> path_of (output_directory_m e @ ''/'' @ scores_file_name) \<Longrightarrow>
          k \<noteq> path_of (output_directory_m e @ ''/'' @ ranges_file_name) \<Longrightarrow>
          file_table w' k = file_table w k"
    "\<not> evaluate_ranges (config_m e) \<Longrightarrow>
       file_table w' (path_of (output_directory_m e @ ''/'' @ ranges_file_name)) =
       file_table w (path_of (output_directory_m e @ ''/'' @ ranges_file_name))"
proof -
  obtain n c1 where f: "filterEvaluatedPoints e cloud = (n, c1)"
    by (cases "filterEvaluatedPoints e cloud")
  let ?S = "output_directory_m e @ ''/'' @ scores_file_name"
  let ?R = "output_directory_m e @ ''/'' @ ranges_file_name"
  define w2 where "w2 = stream_write ?S [TimestampText (timestamp cloud)] (open_app ?S w)"
  define w3 where "w3 = evaluate_levels c1 (evaluated_levels_m e) ?S w2"
  define tail where "tail = [comma, NumText (sint n), comma, NumText (int (length (points c1)))] @
    (endl :: 'b cell list)"
  define w4 where "w4 = stream_write ?S tail w3"
  have SR: "path_of ?S \<noteq> path_of ?R" "path_of ?R \<noteq> path_of ?S" by (rule paths_distinct)+
  have f2: "file_table w2 = (file_table w)(path_of ?S \<mapsto> contents w ?S @ [TimestampText (timestamp cloud)])"
    by (simp add: w2_def)
  then have "file_table w2 (path_of ?S) = Some (contents w ?S @ [TimestampText (timestamp cloud)])" by simp
  from file_table_evaluate_levels [OF this, of c1 "evaluated_levels_m e"]
  have f3: "file_table w3 = (file_table w)(path_of ?S \<mapsto> (contents w ?S @ [TimestampText (timestamp cloud)]) @
      levels_cells c1 (evaluated_levels_m e))"
    by (simp add: w3_def f2)
  have row: "score_row e cloud =
      [TimestampText (timestamp cloud)] @ levels_cells c1 (evaluated_levels_m e) @ tail"
    by (simp add: score_row_def f tail_def)
  have f4: "file_table w4 = (file_table w)(path_of ?S \<mapsto> contents w ?S @ score_row e cloud)"
    by (simp add: w4_def f3 row)
  have d4: "directories w4 = directories w"
    by (simp add: w4_def w3_def w2_def)
  have unfold: "writeScoresToFile e cloud w =
      (if evaluate_ranges (config_m e)
       then (case evaluateRanges e c1 w4 of None \<Rightarrow> None | Some (e', w5) \<Rightarrow> Some (e', c1, w5))
       else Some (e, c1, w4))"
    by (simp add: writeScoresToFile_def Let_def f w2_def w3_def w4_def tail_def)
  show thesis
  proof (cases "evaluate_ranges (config_m e)")
    case False
    have "e = e\<lparr>ranges_m := ranges_m e\<rparr>" by simp
    then have "writeScoresToFile e cloud w =
        Some (e\<lparr>ranges_m := ranges_m e\<rparr>, snd (filterEvaluatedPoints e cloud), w4)"
      using False unfold f by simp
    then show thesis
      using False f4 d4 SR
      by (intro that [of "ranges_m e" w4]) (simp_all add: f)
  next
    case True
    with inv have len: "length (ranges_m e) = 4" by simp
    from evaluateRanges_eq [OF len, of c1 w4]
    obtain rs cs where r: "evaluateRanges e c1 w4 = Some (e\<lparr>ranges_m := rs\<rparr>,
        stream_write ?R cs (open_trunc ?R w4))" and lrs: "length rs = 4"
      by simp
    have "writeScoresToFile e cloud w =
        Some (e\<lparr>ranges_m := rs\<rparr>, snd (filterEvaluatedPoints e cloud),
              stream_write ?R cs (open_trunc ?R w4))"
      using True unfold f r by simp
    then show thesis
      using True lrs f4 d4 SR
      by (intro that [of rs "stream_write ?R cs (open_trunc ?R w4)"]) (simp_all add: f)
  qed
qed

lemma evaluateFrame_unlabelled:
  "label (ground_truth_handler e) cloud = (False, c1, h) \<Longrightarrow>
   evaluateFrame label timing e cloud w =
     Some (e\<lparr>ground_truth_handler := h\<rparr>, c1, writeTimingsToFile timing e w)"
  by (simp add: evaluateFrame_def Let_def)

lemma evaluateFrame_labelled:
  assumes inv: "evaluate_ranges (config_m e) \<longrightarrow> length (ranges_m e) = 4"
    and lab: "label (ground_truth_handler e) cloud = (True, c1, h)"
  obtains e' c' w' where
    "evaluateFrame label timing e cloud w = Some (e', c', w')"
    "config_m e' = config_m e"
    "output_directory_m e' = output_directory_m e"
    "evaluated_levels_m e' = evaluated_levels_m e"
    "ground_truth_handler e' = h"
    "gt_frame_counter_m e' = gt_frame_counter_m e + 1"
    "evaluate_ranges (config_m e) \<longrightarrow> length (ranges_m e') = 4"
    "\<not> evaluate_ranges (config_m e) \<longrightarrow> ranges_m e' = ranges_m e"
    "directories w' = directories w"
    "file_table w' (path_of (output_directory_m e @ ''/'' @ timings_file_name)) =
       Some (chars timing @ endl)"
    "file_table w' (path_of (output_directory_m e @ ''/'' @ scores_file_name)) =
       Some (contents w (output_directory_m e @ ''/'' @ scores_file_name) @ score_row e c1)"
    "\<And>k. k \<noteq> path_of (output_directory_m e @ ''/'' @ scores_file_name) \<Longrightarrow>
          k \<noteq> path_of (output_directory_m e @ ''/'' @ ranges_file_name) \<Longrightarrow>
          k \<noteq> path_of (output_directory_m e @ ''/'' @ timings_file_name) \<Longrightarrow>
          file_table w' k = file_table w k"
proof -
  let ?S = "output_directory_m e @ ''/'' @ scores_file_name"
  let ?R = "output_directory_m e @ ''/'' @ ranges_file_name"
  let ?T = "output_directory_m e @ ''/'' @ timings_file_name"
  define e1 where "e1 = e\<lparr>ground_truth_handler := h\<rparr>"
  define w1 where "w1 = writeTimingsToFile timing e w"
  have e1: "config_m e1 = config_m e" "output_directory_m e1 = output_directory_m e"
    "evaluated_levels_m e1 = evaluated_levels_m e" "ranges_m e1 = ranges_m e"
    "gt_frame_counter_m e1 = gt_frame_counter_m e" "ground_truth_handler e1 = h"
    by (simp_all add: e1_def)
  have inv1: "evaluate_ranges (config_m e1) \<longrightarrow> length (ranges_m e1) = 4"
    using inv by (simp only: e1)
  have f1: "file_table w1 = (file_table w)(path_of ?T \<mapsto> chars timing @ endl)" and d1: "directories w1 = directories w"
    by (simp_all add: w1_def)
  have c1: "contents w1 ?S = contents w ?S"
    using paths_distinct(2) [of "output_directory_m e"] by (simp add: contents_def files_def f1)
  show thesis
  proof (rule writeScoresToFile_effect [OF inv1, of c1 w1])
  fix rs w2
  assume ws:
    "writeScoresToFile e1 c1 w1 = Some (e1\<lparr>ranges_m := rs\<rparr>, snd (filterEvaluatedPoints e1 c1), w2)"
    "evaluate_ranges (config_m e1) \<longrightarrow> length rs = 4"
    "\<not> evaluate_ranges (config_m e1) \<longrightarrow> rs = ranges_m e1"
    "directories w2 = directories w1"
    "file_table w2 (path_of (output_directory_m e1 @ ''/'' @ scores_file_name)) =
       Some (contents w1 (output_directory_m e1 @ ''/'' @ scores_file_name) @ score_row e1 c1)"
    "\<And>k. k \<noteq> path_of (output_directory_m e1 @ ''/'' @ scores_file_name) \<Longrightarrow>
          k \<noteq> path_of (output_directory_m e1 @ ''/'' @ ranges_file_name) \<Longrightarrow>
          file_table w2 k = file_table w1 k"
    "\<not> evaluate_ranges (config_m e1) \<Longrightarrow>
       file_table w2 (path_of (output_directory_m e1 @ ''/'' @ ranges_file_name)) =
       file_table w1 (path_of (output_directory_m e1 @ ''/'' @ ranges_file_name))"
  define e3 where "e3 = e1\<lparr>ranges_m := rs\<rparr>
    \<lparr>gt_frame_counter_m := gt_frame_counter_m (e1\<lparr>ranges_m := rs\<rparr>) + 1\<rparr>"
  define c2 where "c2 = snd (filterEvaluatedPoints e1 c1)"
  define w3 where "w3 = log_info (chars ''Evaluated cloud '' @ [NumText (gt_frame_counter_m e3)] @
      chars '' with timestamp '' @ [TimestampText (timestamp c2)] @ chars ''.'') w2"
  have r: "evaluateFrame label timing e cloud w = Some (e3, c2, w3)"
    unfolding evaluateFrame_def Let_def lab prod.case if_True
      e1_def [symmetric] w1_def [symmetric] ws(1) option.case
      e3_def [symmetric] c2_def [symmetric] w3_def [symmetric]
    by (rule refl)
  have row: "score_row e1 c1 = score_row e c1"
    by (rule score_row_cong) (simp_all only: e1)
  have fT: "file_table w3 (path_of ?T) = Some (chars timing @ endl)"
    using ws(6) [of "path_of ?T"] paths_distinct(5,6) [of "output_directory_m e"]
    by (simp add: w3_def e1 f1)
  have fS: "file_table w3 (path_of ?S) = Some (contents w ?S @ score_row e c1)"
    using ws(5) c1 by (simp add: w3_def e1 row)
  have other: "file_table w3 k = file_table w k"
    if "k \<noteq> path_of ?S" "k \<noteq> path_of ?R" "k \<noteq> path_of ?T" for k
    using ws(6) [of k] that by (simp add: w3_def e1 f1)
  show thesis
    using r fT fS other ws(2,3,4) d1
    by (intro that [of e3 c2 w3]) (simp_all add: e3_def w3_def e1)
  qed
qed

section \<open>Unknown levels\<close>








section \<open>A run of frames\<close>

lemma contents_writeTimingsToFile:
  "path_of p \<noteq> path_of (output_directory_m e @ ''/'' @ timings_file_name) \<Longrightarrow>
   contents (writeTimingsToFile timing e w) p = contents w p"
  by (simp add: contents_def files_def)

lemma evaluateFrames_rows:
  assumes "evaluate_ranges (config_m e) \<longrightarrow> length (ranges_m e) = 4"
  shows "\<exists>e' w'. evaluateFrames label frames e w = Some (e', w') \<and>
           line_breaks (contents w' (output_directory_m e @ ''/'' @ scores_file_name)) =
             line_breaks (contents w (output_directory_m e @ ''/'' @ scores_file_name)) +
             labelled label (ground_truth_handler e) frames \<and>
           gt_frame_counter_m e' =
             gt_frame_counter_m e + int (labelled label (ground_truth_handler e) frames)"
  using assms
proof (induction frames arbitrary: e w)
  case Nil
  show ?case by simp
next
  case (Cons frame frames)
  obtain timing cloud where frame: "frame = (timing, cloud)" by (cases frame)
  obtain available c1 h where lab: "label (ground_truth_handler e) cloud = (available, c1, h)"
    by (cases "label (ground_truth_handler e) cloud")
  let ?S = "output_directory_m e @ ''/'' @ scores_file_name"
  show ?case
  proof (cases available)
    case False
    let ?e1 = "e\<lparr>ground_truth_handler := h\<rparr>"
    let ?w1 = "writeTimingsToFile timing e w"
    have step: "evaluateFrame label timing e cloud w = Some (?e1, c1, ?w1)"
      using lab False by (simp add: evaluateFrame_unlabelled)
    have inv1: "evaluate_ranges (config_m ?e1) \<longrightarrow> length (ranges_m ?e1) = 4"
      using Cons.prems by simp
    from Cons.IH [OF inv1, of ?w1]
    obtain e' w' where run: "evaluateFrames label frames ?e1 ?w1 = Some (e', w')"
      and rows: "line_breaks (contents w' ?S) =
          line_breaks (contents ?w1 ?S) + labelled label h frames"
      and cnt: "gt_frame_counter_m e' = gt_frame_counter_m e + int (labelled label h frames)"
      by auto
    have "contents ?w1 ?S = contents w ?S"
      by (rule contents_writeTimingsToFile) (rule paths_distinct)
    with rows have "line_breaks (contents w' ?S) =
        line_breaks (contents w ?S) + labelled label (ground_truth_handler e) (frame # frames)"
      using lab False by (simp add: frame)
    moreover have "evaluateFrames label (frame # frames) e w = Some (e', w')"
      using step run by (simp add: frame)
    moreover have "gt_frame_counter_m e' = gt_frame_counter_m e +
        int (labelled label (ground_truth_handler e) (frame # frames))"
      using cnt lab False by (simp add: frame)
    ultimately show ?thesis by blast
  next
    case True
    with lab have lab': "label (ground_truth_handler e) cloud = (True, c1, h)" by simp
    show ?thesis
    proof (rule evaluateFrame_labelled [where e = e and label = label and cloud = cloud
          and ?c1.0 = c1 and h = h and timing = timing and w = w, OF Cons.prems lab'])
      fix e1 c2 w1
      assume step: "evaluateFrame label timing e cloud w = Some (e1, c2, w1)"
        and e1: "config_m e1 = config_m e" "output_directory_m e1 = output_directory_m e"
          "ground_truth_handler e1 = h" "gt_frame_counter_m e1 = gt_frame_counter_m e + 1"
        and len: "evaluate_ranges (config_m e) \<longrightarrow> length (ranges_m e1) = 4"
        and fS: "file_table w1 (path_of ?S) = Some (contents w ?S @ score_row e c1)"
      have inv1: "evaluate_ranges (config_m e1) \<longrightarrow> length (ranges_m e1) = 4"
        using len by (simp only: e1)
      from Cons.IH [OF inv1, of w1]
      obtain e' w' where run: "evaluateFrames label frames e1 w1 = Some (e', w')"
        and rows: "line_breaks (contents w' ?S) =
            line_breaks (contents w1 ?S) + labelled label h frames"
        and cnt: "gt_frame_counter_m e' = gt_frame_counter_m e1 + int (labelled label h frames)"
        by (auto simp add: e1)
      have "line_breaks (contents w1 ?S) = line_breaks (contents w ?S) + 1"
        using fS by (simp add: line_breaks_score_row)
      with rows have "line_breaks (contents w' ?S) =
          line_breaks (contents w ?S) + labelled label (ground_truth_handler e) (frame # frames)"
        using lab' by (simp add: frame)
      moreover have "evaluateFrames label (frame # frames) e w = Some (e', w')"
        using step run by (simp add: frame)
      moreover have "gt_frame_counter_m e' = gt_frame_counter_m e +
          int (labelled label (ground_truth_handler e) (frame # frames))"
        using cnt lab' by (simp add: frame e1)
      ultimately show ?thesis by blast
    qed
  qed
qed

section \<open>Setting up the files\<close>



lemma create_directories_simps:
  assumes "create_directories p w = Some w1"
  shows "directories w1 = directories w \<union> set (ancestors (path_of p)) \<union> {path_of p}"
    "file_table w1 = file_table w" "glog w1 = glog w"
    "\<not> list_ex (\<lambda>k. file_table w k \<noteq> None) (path_of p # ancestors (path_of p))"
  using assms by (auto simp add: create_directories_def split: if_splits)

text \<open>What \<^verbatim>\<open>setupFiles\<close> leaves when it returns, and when it throws.\<close>

lemma setupFiles_Some:
  assumes "setupFiles now e w = Some (e1, w1)"
  shows "config_m e1 = config_m e"
    "ground_truth_handler e1 = ground_truth_handler e"
    "gt_frame_counter_m e1 = gt_frame_counter_m e"
    "output_directory_m e1 =
       (if filesystem_exists w (output_directory (config_m e))
        then output_directory (config_m e) @ ''/'' @ put_time now
        else output_directory (config_m e))"
    "evaluated_levels_m e1 =
       evaluated_levels_m e @
       (if evaluate_point_level (config_m e) then [''point''] else []) @
       (if evaluate_cluster_level (config_m e) then [''cluster''] else []) @
       (if evaluate_object_level (config_m e) then [''object''] else [])"
    "ranges_m e1 = (if evaluate_ranges (config_m e) then [[], [], [], []] else ranges_m e)"
    "file_table w1 =
       (file_table w)(path_of (output_directory_m e1 @ ''/'' @ scores_file_name) \<mapsto>
          chars ''timestamp,'' @
          chars (concat (map level_header (evaluated_levels_m e1))) @
          chars ''EvaluatedPoints,TotalPoints'' @ endl)"
    "directories w1 = directories w \<union> set (ancestors (path_of (output_directory_m e1))) \<union>
       {path_of (output_directory_m e1)}"
    "glog w1 = glog w @ [LogInfo (chars ''Writing evaluation to '' @ [Chr (CHR 0x27)] @
       chars (output_directory_m e1) @ chars ''.'')]"
    "\<not> list_ex (\<lambda>k. file_table w k \<noteq> None)
         (path_of (output_directory_m e1) # ancestors (path_of (output_directory_m e1)))"
proof -
  define dir where "dir = (if filesystem_exists w (output_directory (config_m e))
      then output_directory (config_m e) @ ''/'' @ put_time now
      else output_directory (config_m e))"
  from assms obtain w0 where c: "create_directories dir w = Some w0"
    by (auto simp add: setupFiles_def Let_def dir_def [symmetric] split: option.splits)
  note cd = create_directories_simps [OF c]
  from assms c have e1: "e1 = e\<lparr>output_directory_m := dir,
        evaluated_levels_m := evaluated_levels_m e @
           (if evaluate_point_level (config_m e) then [''point''] else []) @
           (if evaluate_cluster_level (config_m e) then [''cluster''] else []) @
           (if evaluate_object_level (config_m e) then [''object''] else []),
        ranges_m := (if evaluate_ranges (config_m e) then replicate 4 [] else ranges_m e)\<rparr>"
    by (simp add: setupFiles_def Let_def dir_def [symmetric])
  from assms c have w1: "w1 =
      stream_write (dir @ ''/'' @ scores_file_name) (chars ''EvaluatedPoints,TotalPoints'' @ endl)
        (stream_write (dir @ ''/'' @ scores_file_name)
           (chars (concat (map level_header (evaluated_levels_m e1))))
           (stream_write (dir @ ''/'' @ scores_file_name) (chars ''timestamp,'')
              (open_trunc (dir @ ''/'' @ scores_file_name)
                 (log_info (chars ''Writing evaluation to '' @ [Chr (CHR 0x27)] @
                            chars dir @ chars ''.'') w0))))"
    by (simp add: setupFiles_def Let_def dir_def [symmetric] e1)
  show "config_m e1 = config_m e" "ground_truth_handler e1 = ground_truth_handler e"
    "gt_frame_counter_m e1 = gt_frame_counter_m e"
    by (simp_all add: e1)
  show "output_directory_m e1 =
       (if filesystem_exists w (output_directory (config_m e))
        then output_directory (config_m e) @ ''/'' @ put_time now
        else output_directory (config_m e))"
    by (simp add: e1 dir_def)
  show "evaluated_levels_m e1 =
       evaluated_levels_m e @
       (if evaluate_point_level (config_m e) then [''point''] else []) @
       (if evaluate_cluster_level (config_m e) then [''cluster''] else []) @
       (if evaluate_object_level (config_m e) then [''object''] else [])"
    by (simp add: e1)
  show "ranges_m e1 = (if evaluate_ranges (config_m e) then [[], [], [], []] else ranges_m e)"
    by (simp add: e1 numeral_eq_Suc)
  have d: "output_directory_m e1 = dir" by (simp add: e1)
  show "file_table w1 =
       (file_table w)(path_of (output_directory_m e1 @ ''/'' @ scores_file_name) \<mapsto>
          chars ''timestamp,'' @
          chars (concat (map level_header (evaluated_levels_m e1))) @
          chars ''EvaluatedPoints,TotalPoints'' @ endl)"
    unfolding d w1 by (simp add: cd contents_def files_def)
  show "directories w1 = directories w \<union> set (ancestors (path_of (output_directory_m e1))) \<union>
       {path_of (output_directory_m e1)}"
    unfolding d w1 by (simp add: cd)
  show "glog w1 = glog w @ [LogInfo (chars ''Writing evaluation to '' @ [Chr (CHR 0x27)] @
       chars (output_directory_m e1) @ chars ''.'')]"
    unfolding d w1 by (simp add: cd)
  show "\<not> list_ex (\<lambda>k. file_table w k \<noteq> None)
         (path_of (output_directory_m e1) # ancestors (path_of (output_directory_m e1)))"
    unfolding d by (rule cd)
qed

lemma setupFiles_returns:
  "(\<exists>e1 w1. setupFiles now e w = Some (e1, w1)) \<longleftrightarrow>
   \<not> list_ex (\<lambda>k. file_table w k \<noteq> None)
      (path_of (if filesystem_exists w (output_directory (config_m e))
                then output_directory (config_m e) @ ''/'' @ put_time now
                else output_directory (config_m e)) #
       ancestors (path_of (if filesystem_exists w (output_directory (config_m e))
                then output_directory (config_m e) @ ''/'' @ put_time now
                else output_directory (config_m e))))"
  by (simp add: setupFiles_def Let_def create_directories_def)


section \<open>Claims about the frames of a run\<close>




text \<open>
  Claim C10. When the handler has no labels for the frame, \<^verbatim>\<open>evaluateFrame\<close> returns with
  the counter of evaluated frames, the range buckets, the directory and the levels of the
  evaluator as they were; every file other than the timings file, the scores file and the
  ranges file among them, is as it was, and so are the directories and the log. When the
  handler has labels and the range buckets are set up when they are used, the call returns
  and the counter of evaluated frames has grown by one.
\<close>

theorem unlabelled_frame_changes_only_timings:
  "(label (ground_truth_handler e) cloud = (False, c1, h) \<longrightarrow>
      (\<exists>e' c' w'.
         evaluateFrame label timing e cloud w = Some (e', c', w') \<and>
         gt_frame_counter_m e' = gt_frame_counter_m e \<and>
         ranges_m e' = ranges_m e \<and>
         config_m e' = config_m e \<and>
         output_directory_m e' = output_directory_m e \<and>
         evaluated_levels_m e' = evaluated_levels_m e \<and>
         files w' (output_directory_m e @ ''/'' @ scores_file_name) =
           files w (output_directory_m e @ ''/'' @ scores_file_name) \<and>
         files w' (output_directory_m e @ ''/'' @ ranges_file_name) =
           files w (output_directory_m e @ ''/'' @ ranges_file_name) \<and>
         (\<forall>p. path_of p \<noteq> path_of (output_directory_m e @ ''/'' @ timings_file_name) \<longrightarrow>
              files w' p = files w p) \<and>
         files w' (output_directory_m e @ ''/'' @ timings_file_name) =
           Some (chars timing @ endl) \<and>
         directories w' = directories w \<and> glog w' = glog w)) \<and>
   (label (ground_truth_handler e) cloud = (True, c1, h) \<longrightarrow>
    (evaluate_ranges (config_m e) \<longrightarrow> length (ranges_m e) = 4) \<longrightarrow>
      (\<exists>e' c' w'.
         evaluateFrame label timing e cloud w = Some (e', c', w') \<and>
         gt_frame_counter_m e' = gt_frame_counter_m e + 1))"
proof (intro conjI impI)
  assume lab: "label (ground_truth_handler e) cloud = (False, c1, h)"
  let ?e' = "e\<lparr>ground_truth_handler := h\<rparr>"
  let ?w' = "writeTimingsToFile timing e w"
  have "evaluateFrame label timing e cloud w = Some (?e', c1, ?w')"
    using lab by (rule evaluateFrame_unlabelled)
  moreover have "files ?w' (output_directory_m e @ ''/'' @ scores_file_name) =
      files w (output_directory_m e @ ''/'' @ scores_file_name)"
    using paths_distinct(2) [of "output_directory_m e"] by (simp add: files_def)
  moreover have "files ?w' (output_directory_m e @ ''/'' @ ranges_file_name) =
      files w (output_directory_m e @ ''/'' @ ranges_file_name)"
    using paths_distinct(3) [of "output_directory_m e"] by (simp add: files_def)
  moreover have "\<forall>p. path_of p \<noteq> path_of (output_directory_m e @ ''/'' @ timings_file_name) \<longrightarrow>
      files ?w' p = files w p"
    by (simp add: files_def)
  moreover have "files ?w' (output_directory_m e @ ''/'' @ timings_file_name) =
      Some (chars timing @ endl)"
    by (simp add: files_def)
  ultimately show "\<exists>e' c' w'.
      evaluateFrame label timing e cloud w = Some (e', c', w') \<and>
      gt_frame_counter_m e' = gt_frame_counter_m e \<and>
      ranges_m e' = ranges_m e \<and>
      config_m e' = config_m e \<and>
      output_directory_m e' = output_directory_m e \<and>
      evaluated_levels_m e' = evaluated_levels_m e \<and>
      files w' (output_directory_m e @ ''/'' @ scores_file_name) =
        files w (output_directory_m e @ ''/'' @ scores_file_name) \<and>
      files w' (output_directory_m e @ ''/'' @ ranges_file_name) =
        files w (output_directory_m e @ ''/'' @ ranges_file_name) \<and>
      (\<forall>p. path_of p \<noteq> path_of (output_directory_m e @ ''/'' @ timings_file_name) \<longrightarrow>
           files w' p = files w p) \<and>
      files w' (output_directory_m e @ ''/'' @ timings_file_name) = Some (chars timing @ endl) \<and>
      directories w' = directories w \<and> glog w' = glog w"
    by (intro exI [of _ ?e'] exI [of _ c1] exI [of _ ?w']) simp
next
  assume lab: "label (ground_truth_handler e) cloud = (True, c1, h)"
    and inv: "evaluate_ranges (config_m e) \<longrightarrow> length (ranges_m e) = 4"
  show "\<exists>e' c' w'. evaluateFrame label timing e cloud w = Some (e', c', w') \<and>
      gt_frame_counter_m e' = gt_frame_counter_m e + 1"
  proof (rule evaluateFrame_labelled [where e = e and label = label and cloud = cloud
        and ?c1.0 = c1 and h = h and timing = timing and w = w, OF inv lab])
    fix e' c' w'
    assume "evaluateFrame label timing e cloud w = Some (e', c', w')"
      and "gt_frame_counter_m e' = gt_frame_counter_m e + 1"
    then show ?thesis by blast
  qed
qed

theorem unlabelled_frame_changes_only_timings_witness:
  "example_labeller (ground_truth_handler (example_evaluator\<lparr>ground_truth_handler := 1\<rparr>))
     example_cloud = (False, example_cloud, 2) \<and>
   evaluateFrame example_labeller ''report''
     (example_evaluator\<lparr>ground_truth_handler := 1\<rparr>) example_cloud example_world =
     Some (example_evaluator\<lparr>ground_truth_handler := 2\<rparr>, example_cloud,
           example_world\<lparr>file_table := (file_table example_world)
             ((False, [''out'', ''timings.txt'']) \<mapsto> chars ''report'' @ endl)\<rparr>) \<and>
   example_labeller (ground_truth_handler example_evaluator) example_cloud =
     (True, example_cloud, 1) \<and>
   evaluate_ranges (config_m example_evaluator) \<and> length (ranges_m example_evaluator) = 4 \<and>
   (\<exists>e' c' w'.
      evaluateFrame example_labeller ''report'' example_evaluator example_cloud example_world =
        Some (e', c', w') \<and>
      gt_frame_counter_m e' = 1)"
proof -
  have l1: "example_labeller (ground_truth_handler (example_evaluator\<lparr>ground_truth_handler := 1\<rparr>))
      example_cloud = (False, example_cloud, 2)"
    by (simp add: example_labeller_def)
  have l2: "example_labeller (ground_truth_handler example_evaluator) example_cloud =
      (True, example_cloud, 1)"
    by (simp add: example_labeller_def example_evaluator_def)
  have inv: "evaluate_ranges (config_m example_evaluator) \<longrightarrow>
      length (ranges_m example_evaluator) = 4"
    and inv': "evaluate_ranges (config_m example_evaluator)"
      "length (ranges_m example_evaluator) = 4"
    by (simp_all add: example_evaluator_def example_config_def)
  have c: "gt_frame_counter_m example_evaluator = 0" by (simp add: example_evaluator_def)
  have r: "evaluateFrame example_labeller ''report''
     (example_evaluator\<lparr>ground_truth_handler := 1\<rparr>) example_cloud example_world =
     Some (example_evaluator\<lparr>ground_truth_handler := 2\<rparr>, example_cloud,
           example_world\<lparr>file_table := (file_table example_world)
             ((False, [''out'', ''timings.txt'']) \<mapsto> chars ''report'' @ endl)\<rparr>)"
    by (subst evaluateFrame_unlabelled [where label = example_labeller
          and e = "example_evaluator\<lparr>ground_truth_handler := 1\<rparr>" and cloud = example_cloud
          and ?c1.0 = example_cloud and h = 2, OF l1])
       (simp add: writeTimingsToFile_def Let_def stream_write_def open_trunc_def
          timings_file_name_def example_evaluator_def files_eval)
  from unlabelled_frame_changes_only_timings [where e = example_evaluator
      and label = example_labeller and cloud = example_cloud and ?c1.0 = example_cloud
      and h = 1 and timing = "''report''" and w = example_world,
      THEN conjunct2, THEN mp, OF l2, THEN mp, OF inv]
  have "\<exists>e' c' w'.
      evaluateFrame example_labeller ''report'' example_evaluator example_cloud example_world =
        Some (e', c', w') \<and> gt_frame_counter_m e' = 1"
    by (simp only: c) simp
  then show ?thesis using l1 l2 inv' r by simp
qed

section \<open>The time-stamped directory\<close>

lemma is_digit_digit_char [simp]: "is_digit (digit_char d)"
proof -
  have "d mod 10 < length ''0123456789''" by simp
  then have "''0123456789'' ! (d mod 10) \<in> set ''0123456789''" by (rule nth_mem)
  then show ?thesis by (simp only: is_digit_def digit_char_def)
qed

lemma digit_char_mod [simp]: "digit_char (n mod 10) = digit_char n"
  by (simp add: digit_char_def)

lemma decimal_digits: "\<forall>c\<in>set (decimal n). is_digit c"
proof (induction n rule: decimal.induct)
  case (1 n)
  show ?case
  proof (cases "n < 10")
    case True
    then show ?thesis by (simp add: decimal.simps [of n])
  next
    case False
    with "1.IH" show ?thesis by (simp add: decimal.simps [of n])
  qed
qed

lemma decimal_four:
  assumes "1000 \<le> n" "n < 10000"
  shows "decimal n =
    [digit_char (n div 1000), digit_char (n div 100), digit_char (n div 10), digit_char n]"
proof -
  define a where "a = n div 10"
  define b where "b = n div 100"
  define c where "c = n div 1000"
  have ab: "a div 10 = b" and bc: "b div 10 = c"
    by (simp_all add: a_def b_def c_def div_mult2_eq [symmetric])
  have r: "\<not> n < 10" "\<not> a < 10" "\<not> b < 10" "c < 10"
    using assms by (simp_all add: a_def b_def c_def)
  have "decimal c = [digit_char c]"
    using r(4) by (simp add: decimal.simps [of c])
  then have "decimal b = [digit_char c, digit_char b]"
    using r(3) by (simp add: decimal.simps [of b] bc)
  then have "decimal a = [digit_char c, digit_char b, digit_char a]"
    using r(2) by (simp add: decimal.simps [of a] ab)
  then have "decimal n = [digit_char c, digit_char b, digit_char a, digit_char n]"
    using r(1) by (simp add: decimal.simps [of n] a_def [symmetric])
  then show ?thesis by (simp only: a_def b_def c_def)
qed

lemma slash_not_digit: "is_digit c \<Longrightarrow> c \<noteq> CHR ''/''"
  by (auto simp add: is_digit_def)

lemma digit_char_not_slash [simp]: "digit_char d \<noteq> CHR ''/''"
  by (rule slash_not_digit) (rule is_digit_digit_char)

lemma put_time_no_slash: "CHR ''/'' \<notin> set (put_time t)"
proof -
  have "CHR ''/'' \<notin> set (decimal (1900 + tm_year t))"
    using decimal_digits [of "1900 + tm_year t"] slash_not_digit by blast
  moreover have "CHR ''/'' \<noteq> digit_char d" for d
    using digit_char_not_slash [of d] by (rule not_sym)
  ultimately show ?thesis by (simp add: put_time_def two_digits_def)
qed

lemma put_time_name: "put_time t \<noteq> []" "put_time t \<noteq> ''.''"
proof -
  have "CHR ''_'' \<in> set (put_time t)" by (simp add: put_time_def)
  then show "put_time t \<noteq> []" "put_time t \<noteq> ''.''" by auto
qed

lemma path_of_stamped:
  "path_of (d @ ''/'' @ put_time t) = (fst (path_of d) \<or> d = [], snd (path_of d) @ [put_time t])"
  by (rule path_of_child) (rule put_time_no_slash put_time_name)+

lemma parent_path_stamped:
  assumes "d \<noteq> []"
  shows "parent_path (path_of (d @ ''/'' @ put_time t)) = path_of d"
  using assms by (simp only: path_of_stamped parent_path_def) simp

lemma stamped_is_new: "path_of (d @ ''/'' @ put_time t) \<noteq> path_of d"
proof
  assume "path_of (d @ ''/'' @ put_time t) = path_of d"
  then have "snd (path_of d) @ [put_time t] = snd (path_of d)"
    by (simp only: path_of_stamped) (metis snd_conv)
  then show False by simp
qed

lemma put_time_form:
  assumes "tm_year t < 8100"
  shows "is_timestamp (put_time t)"
proof -
  define y where "y = 1900 + tm_year t"
  have "1000 \<le> y" "y < 10000" using assms by (simp_all add: y_def)
  then have "decimal y =
      [digit_char (y div 1000), digit_char (y div 100), digit_char (y div 10), digit_char y]"
    by (rule decimal_four)
  then obtain a b c d where "decimal y = [digit_char a, digit_char b, digit_char c, digit_char d]"
    by blast
  then show ?thesis
    unfolding put_time_def y_def [symmetric]
    by (simp add: two_digits_def is_timestamp_def)
qed

lemma evaluateFrames_other_files:
  assumes "evaluate_ranges (config_m e) \<longrightarrow> length (ranges_m e) = 4"
    and "evaluateFrames label frames e w = Some (e', w')"
    and "k \<noteq> path_of (output_directory_m e @ ''/'' @ scores_file_name)"
    and "k \<noteq> path_of (output_directory_m e @ ''/'' @ ranges_file_name)"
    and "k \<noteq> path_of (output_directory_m e @ ''/'' @ timings_file_name)"
  shows "file_table w' k = file_table w k"
  using assms
proof (induction frames arbitrary: e w)
  case Nil
  then show ?case by simp
next
  case (Cons frame frames)
  obtain timing cloud where frame: "frame = (timing, cloud)" by (cases frame)
  obtain available c1 h where lab: "label (ground_truth_handler e) cloud = (available, c1, h)"
    by (cases "label (ground_truth_handler e) cloud")
  show ?case
  proof (cases available)
    case False
    let ?e1 = "e\<lparr>ground_truth_handler := h\<rparr>"
    let ?w1 = "writeTimingsToFile timing e w"
    have step: "evaluateFrame label timing e cloud w = Some (?e1, c1, ?w1)"
      using lab False by (simp add: evaluateFrame_unlabelled)
    then have run: "evaluateFrames label frames ?e1 ?w1 = Some (e', w')"
      using Cons.prems(2) by (simp add: frame)
    have inv1: "evaluate_ranges (config_m ?e1) \<longrightarrow> length (ranges_m ?e1) = 4"
      using Cons.prems(1) by simp
    from Cons.IH [OF inv1 run] Cons.prems(3,4,5)
    have "file_table w' k = file_table ?w1 k" by simp
    then show ?thesis using Cons.prems(5) by simp
  next
    case True
    with lab have lab': "label (ground_truth_handler e) cloud = (True, c1, h)" by simp
    show ?thesis
    proof (rule evaluateFrame_labelled [where e = e and label = label and cloud = cloud
          and ?c1.0 = c1 and h = h and timing = timing and w = w, OF Cons.prems(1) lab'])
      fix e1 c2 w1
      assume step: "evaluateFrame label timing e cloud w = Some (e1, c2, w1)"
        and e1: "config_m e1 = config_m e" "output_directory_m e1 = output_directory_m e"
        and len: "evaluate_ranges (config_m e) \<longrightarrow> length (ranges_m e1) = 4"
        and d1: "directories w1 = directories w"
        and other: "\<And>k. k \<noteq> path_of (output_directory_m e @ ''/'' @ scores_file_name) \<Longrightarrow>
          k \<noteq> path_of (output_directory_m e @ ''/'' @ ranges_file_name) \<Longrightarrow>
          k \<noteq> path_of (output_directory_m e @ ''/'' @ timings_file_name) \<Longrightarrow>
          file_table w1 k = file_table w k"
      have run: "evaluateFrames label frames e1 w1 = Some (e', w')"
        using Cons.prems(2) step by (simp add: frame)
      have inv1: "evaluate_ranges (config_m e1) \<longrightarrow> length (ranges_m e1) = 4"
        using len by (simp only: e1)
      from Cons.IH [OF inv1 run] Cons.prems(3,4,5)
      have "file_table w' k = file_table w1 k" by (simp add: e1)
      then show ?thesis using other [OF Cons.prems(3,4,5)] by simp
    qed
  qed
qed

lemma evaluateFrames_keeps:
  assumes "evaluate_ranges (config_m e) \<longrightarrow> length (ranges_m e) = 4"
    and "evaluateFrames label frames e w = Some (e', w')"
  shows "directories w' = directories w \<and> output_directory_m e' = output_directory_m e"
  using assms
proof (induction frames arbitrary: e w)
  case Nil
  then show ?case by simp
next
  case (Cons frame frames)
  obtain timing cloud where frame: "frame = (timing, cloud)" by (cases frame)
  obtain available c1 h where lab: "label (ground_truth_handler e) cloud = (available, c1, h)"
    by (cases "label (ground_truth_handler e) cloud")
  show ?case
  proof (cases available)
    case False
    let ?e1 = "e\<lparr>ground_truth_handler := h\<rparr>"
    let ?w1 = "writeTimingsToFile timing e w"
    have step: "evaluateFrame label timing e cloud w = Some (?e1, c1, ?w1)"
      using lab False by (simp add: evaluateFrame_unlabelled)
    then have run: "evaluateFrames label frames ?e1 ?w1 = Some (e', w')"
      using Cons.prems(2) by (simp add: frame)
    have inv1: "evaluate_ranges (config_m ?e1) \<longrightarrow> length (ranges_m ?e1) = 4"
      using Cons.prems(1) by simp
    from Cons.IH [OF inv1 run] show ?thesis by simp
  next
    case True
    with lab have lab': "label (ground_truth_handler e) cloud = (True, c1, h)" by simp
    show ?thesis
    proof (rule evaluateFrame_labelled [where e = e and label = label and cloud = cloud
          and ?c1.0 = c1 and h = h and timing = timing and w = w, OF Cons.prems(1) lab'])
      fix e1 c2 w1
      assume step: "evaluateFrame label timing e cloud w = Some (e1, c2, w1)"
        and e1: "config_m e1 = config_m e" "output_directory_m e1 = output_directory_m e"
        and len: "evaluate_ranges (config_m e) \<longrightarrow> length (ranges_m e1) = 4"
        and d1: "directories w1 = directories w"
      have run: "evaluateFrames label frames e1 w1 = Some (e', w')"
        using Cons.prems(2) step by (simp add: frame)
      have inv1: "evaluate_ranges (config_m e1) \<longrightarrow> length (ranges_m e1) = 4"
        using len by (simp only: e1)
      from Cons.IH [OF inv1 run] show ?thesis by (simp add: e1 d1)
    qed
  qed
qed

section \<open>Claim about the directory of an evaluator\<close>

lemma filesystem_exists_not_empty: "filesystem_exists w p \<Longrightarrow> p \<noteq> []"
  by (simp add: filesystem_exists_def)

text \<open>
  Claim C8, as the code has it. When the configured output directory exists, \<^verbatim>\<open>setupFiles\<close>
  takes the path of that name followed by \<^verbatim>\<open>/\<close> and the time stamp: a directory inside
  the configured one, not beside it. It throws when that path or a directory on the way to
  it is a regular file, and returns otherwise. When it returns, the time-stamped directory
  is there and every directory there was is kept. The time stamp has the form
  \<^verbatim>\<open>YYYY_MM_DD-HH_MM_SS\<close> up to the year 9999. The scores file of the time-stamped directory
  holds the header and nothing else, whatever it held before; no other file is changed, and
  the frames evaluated afterwards change none but the scores, ranges and timings file of the
  time-stamped directory. So when none of these three files was there, every file that was
  there is kept as it was.
\<close>

theorem existing_directory_gets_timestamped_subdirectory:
  assumes "filesystem_exists w (output_directory (config_m e))"
  shows "((\<exists>e1 w1. setupFiles now e w = Some (e1, w1)) \<longleftrightarrow>
          \<not> list_ex (\<lambda>k. file_table w k \<noteq> None)
             (path_of (output_directory (config_m e) @ ''/'' @ put_time now) #
              ancestors (path_of (output_directory (config_m e) @ ''/'' @ put_time now)))) \<and>
         (tm_year now < 8100 \<longrightarrow> is_timestamp (put_time now)) \<and>
         parent_path (path_of (output_directory (config_m e) @ ''/'' @ put_time now)) =
           path_of (output_directory (config_m e)) \<and>
         path_of (output_directory (config_m e) @ ''/'' @ put_time now) \<noteq>
           path_of (output_directory (config_m e)) \<and>
         (\<forall>e1 w1. setupFiles now e w = Some (e1, w1) \<longrightarrow>
            output_directory_m e1 = output_directory (config_m e) @ ''/'' @ put_time now \<and>
            directories w1 =
              directories w \<union> set (ancestors (path_of (output_directory_m e1))) \<union>
              {path_of (output_directory_m e1)} \<and>
            files w1 (output_directory_m e1 @ ''/'' @ scores_file_name) =
              Some (chars ''timestamp,'' @
                    chars (concat (map level_header (evaluated_levels_m e1))) @
                    chars ''EvaluatedPoints,TotalPoints'' @ endl) \<and>
            (\<forall>p. path_of p \<noteq> path_of (output_directory_m e1 @ ''/'' @ scores_file_name) \<longrightarrow>
                 files w1 p = files w p) \<and>
            (\<forall>label frames e2 w2.
               evaluateFrames label frames e1 w1 = Some (e2, w2) \<longrightarrow>
               output_directory_m e2 = output_directory_m e1 \<and>
               directories w2 = directories w1 \<and>
               (\<forall>p. path_of p \<noteq> path_of (output_directory_m e1 @ ''/'' @ scores_file_name) \<and>
                    path_of p \<noteq> path_of (output_directory_m e1 @ ''/'' @ ranges_file_name) \<and>
                    path_of p \<noteq> path_of (output_directory_m e1 @ ''/'' @ timings_file_name) \<longrightarrow>
                    files w2 p = files w p) \<and>
               (files w (output_directory_m e1 @ ''/'' @ scores_file_name) = None \<and>
                files w (output_directory_m e1 @ ''/'' @ ranges_file_name) = None \<and>
                files w (output_directory_m e1 @ ''/'' @ timings_file_name) = None \<longrightarrow>
                (\<forall>p c. files w p = Some c \<longrightarrow> files w1 p = Some c \<and> files w2 p = Some c))))"
proof -
  let ?D = "output_directory (config_m e)"
  let ?N = "?D @ ''/'' @ put_time now"
  have 1: "(\<exists>e1 w1. setupFiles now e w = Some (e1, w1)) \<longleftrightarrow>
      \<not> list_ex (\<lambda>k. file_table w k \<noteq> None) (path_of ?N # ancestors (path_of ?N))"
    using assms by (simp only: setupFiles_returns if_True)
  have 2: "tm_year now < 8100 \<longrightarrow> is_timestamp (put_time now)"
    by (simp add: put_time_form)
  have 3: "parent_path (path_of ?N) = path_of ?D"
    by (rule parent_path_stamped) (rule filesystem_exists_not_empty [OF assms])
  have 4: "path_of ?N \<noteq> path_of ?D" by (rule stamped_is_new)
  have 5: "output_directory_m e1 = ?N \<and>
      directories w1 =
        directories w \<union> set (ancestors (path_of (output_directory_m e1))) \<union>
        {path_of (output_directory_m e1)} \<and>
      files w1 (output_directory_m e1 @ ''/'' @ scores_file_name) =
        Some (chars ''timestamp,'' @
              chars (concat (map level_header (evaluated_levels_m e1))) @
              chars ''EvaluatedPoints,TotalPoints'' @ endl) \<and>
      (\<forall>p. path_of p \<noteq> path_of (output_directory_m e1 @ ''/'' @ scores_file_name) \<longrightarrow>
           files w1 p = files w p) \<and>
      (\<forall>label frames e2 w2.
         evaluateFrames label frames e1 w1 = Some (e2, w2) \<longrightarrow>
         output_directory_m e2 = output_directory_m e1 \<and>
         directories w2 = directories w1 \<and>
         (\<forall>p. path_of p \<noteq> path_of (output_directory_m e1 @ ''/'' @ scores_file_name) \<and>
              path_of p \<noteq> path_of (output_directory_m e1 @ ''/'' @ ranges_file_name) \<and>
              path_of p \<noteq> path_of (output_directory_m e1 @ ''/'' @ timings_file_name) \<longrightarrow>
              files w2 p = files w p) \<and>
         (files w (output_directory_m e1 @ ''/'' @ scores_file_name) = None \<and>
          files w (output_directory_m e1 @ ''/'' @ ranges_file_name) = None \<and>
          files w (output_directory_m e1 @ ''/'' @ timings_file_name) = None \<longrightarrow>
          (\<forall>p c. files w p = Some c \<longrightarrow> files w1 p = Some c \<and> files w2 p = Some c)))"
    if s: "setupFiles now e w = Some (e1, w1)" for e1 w1
  proof -
    let ?S = "output_directory_m e1 @ ''/'' @ scores_file_name"
    let ?R = "output_directory_m e1 @ ''/'' @ ranges_file_name"
    let ?T = "output_directory_m e1 @ ''/'' @ timings_file_name"
    note sf = setupFiles_Some [OF s]
    have a: "output_directory_m e1 = ?N" using assms by (simp add: sf(4))
    have b: "directories w1 =
        directories w \<union> set (ancestors (path_of (output_directory_m e1))) \<union>
        {path_of (output_directory_m e1)}"
      by (rule sf(8))
    have c: "files w1 ?S =
        Some (chars ''timestamp,'' @
              chars (concat (map level_header (evaluated_levels_m e1))) @
              chars ''EvaluatedPoints,TotalPoints'' @ endl)"
      by (simp add: files_def sf(7))
    have d: "files w1 p = files w p" if "path_of p \<noteq> path_of ?S" for p
      using that by (simp add: files_def sf(7))
    have inv: "evaluate_ranges (config_m e1) \<longrightarrow> length (ranges_m e1) = 4"
      by (simp add: sf(1) sf(6))
    have f: "output_directory_m e2 = output_directory_m e1 \<and>
        directories w2 = directories w1 \<and>
        (\<forall>p. path_of p \<noteq> path_of ?S \<and> path_of p \<noteq> path_of ?R \<and> path_of p \<noteq> path_of ?T \<longrightarrow>
             files w2 p = files w p) \<and>
        (files w ?S = None \<and> files w ?R = None \<and> files w ?T = None \<longrightarrow>
         (\<forall>p c. files w p = Some c \<longrightarrow> files w1 p = Some c \<and> files w2 p = Some c))"
      if run: "evaluateFrames label frames e1 w1 = Some (e2, w2)" for label frames e2 w2
    proof -
      have other: "files w2 p = files w p"
        if p: "path_of p \<noteq> path_of ?S" "path_of p \<noteq> path_of ?R" "path_of p \<noteq> path_of ?T"
        for p
      proof -
        from evaluateFrames_other_files [OF inv run p]
        have "files w2 p = files w1 p" by (simp add: files_def)
        with d [OF p(1)] show ?thesis by simp
      qed
      have kept: "files w1 p = Some c \<and> files w2 p = Some c"
        if n: "files w ?S = None \<and> files w ?R = None \<and> files w ?T = None"
          and p: "files w p = Some c" for p c
      proof -
        have "path_of p \<noteq> path_of ?S" "path_of p \<noteq> path_of ?R" "path_of p \<noteq> path_of ?T"
          using n p by (auto simp add: files_def)
        then show ?thesis using other [of p] d [of p] p by simp
      qed
      from evaluateFrames_keeps [OF inv run]
      have "output_directory_m e2 = output_directory_m e1" "directories w2 = directories w1"
        by simp_all
      with other kept show ?thesis by blast
    qed
    from a b c d f show ?thesis by blast
  qed
  from 1 2 3 4 5 show ?thesis by blast
qed

lemma put_time_example: "put_time example_time = ''2023_01_02-03_04_05''"
  by (simp add: put_time_def two_digits_def digit_char_def decimal.simps example_time_def)

theorem existing_directory_gets_timestamped_subdirectory_witness:
  "filesystem_exists example_world (output_directory (config_m example_evaluator)) \<and>
   tm_year example_time < 8100 \<and>
   put_time example_time = ''2023_01_02-03_04_05'' \<and>
   is_timestamp ''2023_01_02-03_04_05'' \<and>
   parent_path (path_of ''out/2023_01_02-03_04_05'') = path_of ''out'' \<and>
   files example_world ''out/2023_01_02-03_04_05/scores.csv'' = None \<and>
   files example_world ''out/2023_01_02-03_04_05/ranges.csv'' = None \<and>
   files example_world ''out/2023_01_02-03_04_05/timings.txt'' = None \<and>
   files example_world ''out/scores.csv'' = Some (contents example_world ''out/scores.csv'') \<and>
   (\<exists>e1 w1 e2 w2.
      setupFiles example_time example_evaluator example_world = Some (e1, w1) \<and>
      output_directory_m e1 = ''out/2023_01_02-03_04_05'' \<and>
      (False, [''out'', ''2023_01_02-03_04_05'']) \<in> directories w1 \<and>
      evaluateFrames example_labeller [(''first'', example_cloud)] e1 w1 = Some (e2, w2) \<and>
      files w1 ''out/scores.csv'' = Some (contents example_world ''out/scores.csv'') \<and>
      files w2 ''out/scores.csv'' = Some (contents example_world ''out/scores.csv''))"
proof -
  let ?N = "''out/2023_01_02-03_04_05''"
  have h: "filesystem_exists example_world (output_directory (config_m example_evaluator))"
    by (simp add: filesystem_exists_def files_eval example_defs)
  have y: "tm_year example_time < 8100" by (simp add: example_time_def)
  have d: "output_directory (config_m example_evaluator) = ''out''"
    by (simp add: example_evaluator_def example_config_def)
  have n: "files example_world ''out/2023_01_02-03_04_05/scores.csv'' = None"
    "files example_world ''out/2023_01_02-03_04_05/ranges.csv'' = None"
    "files example_world ''out/2023_01_02-03_04_05/timings.txt'' = None"
    by (simp_all add: files_eval example_world_def)
  have f: "files example_world ''out/scores.csv'' =
      Some (contents example_world ''out/scores.csv'')"
    by (simp add: contents_def files_eval example_world_def)
  have p: "path_of ?N = (False, [''out'', ''2023_01_02-03_04_05''])"
    by (simp add: path_of_def)
  have free: "\<not> list_ex (\<lambda>k. file_table example_world k \<noteq> None)
      (path_of ?N # ancestors (path_of ?N))"
    by (simp add: p ancestors_def upt_conv_Cons example_world_def)
  note inst = existing_directory_gets_timestamped_subdirectory [OF h, of example_time]
  note i1 = inst [THEN conjunct1]
  note i2 = inst [THEN conjunct2, THEN conjunct1]
  note i3 = inst [THEN conjunct2, THEN conjunct2, THEN conjunct1]
  note i5 = inst [THEN conjunct2, THEN conjunct2, THEN conjunct2, THEN conjunct2]
  from i1 free obtain e1 w1
    where s: "setupFiles example_time example_evaluator example_world = Some (e1, w1)"
    by (auto simp add: d put_time_example)
  note r = i5 [THEN spec, THEN spec, THEN mp, OF s]
  from r have dir: "output_directory_m e1 = ?N" by (simp add: d put_time_example)
  from r have "directories w1 =
      directories example_world \<union> set (ancestors (path_of (output_directory_m e1))) \<union>
      {path_of (output_directory_m e1)}"
    by (rule conjunct2 [THEN conjunct1])
  then have made: "(False, [''out'', ''2023_01_02-03_04_05'']) \<in> directories w1"
    by (simp add: dir p)
  have inv: "evaluate_ranges (config_m e1) \<longrightarrow> length (ranges_m e1) = 4"
    by (simp add: setupFiles_Some [OF s])
  from evaluateFrames_rows [OF inv, of example_labeller "[(''first'', example_cloud)]" w1]
  obtain e2 w2 where run:
    "evaluateFrames example_labeller [(''first'', example_cloud)] e1 w1 = Some (e2, w2)"
    by blast
  note g = r [THEN conjunct2, THEN conjunct2, THEN conjunct2, THEN conjunct2,
      THEN spec, THEN spec, THEN spec, THEN spec, THEN mp, OF run,
      THEN conjunct2, THEN conjunct2, THEN conjunct2]
  have "files w1 ''out/scores.csv'' = Some (contents example_world ''out/scores.csv'') \<and>
      files w2 ''out/scores.csv'' = Some (contents example_world ''out/scores.csv'')"
    using g [THEN mp, THEN spec, THEN spec, THEN mp, OF _ f] n
    by (simp add: dir scores_file_name_def ranges_file_name_def timings_file_name_def)
  with s dir made run have "\<exists>e1 w1 e2 w2.
      setupFiles example_time example_evaluator example_world = Some (e1, w1) \<and>
      output_directory_m e1 = ''out/2023_01_02-03_04_05'' \<and>
      (False, [''out'', ''2023_01_02-03_04_05'']) \<in> directories w1 \<and>
      evaluateFrames example_labeller [(''first'', example_cloud)] e1 w1 = Some (e2, w2) \<and>
      files w1 ''out/scores.csv'' = Some (contents example_world ''out/scores.csv'') \<and>
      files w2 ''out/scores.csv'' = Some (contents example_world ''out/scores.csv'')"
    by blast
  moreover from i2 y have "is_timestamp ''2023_01_02-03_04_05''"
    by (simp add: put_time_example)
  moreover from i3 have "parent_path (path_of ''out/2023_01_02-03_04_05'') = path_of ''out''"
    by (simp add: d put_time_example)
  ultimately show ?thesis
    using h y n f put_time_example by (simp only: simp_thms)
qed

text \<open>
  The claim as it is written fails in four ways. With the directory \<^verbatim>\<open>out\<close> in place, the
  evaluator takes \<^verbatim>\<open>out/2023_01_02-03_04_05\<close>, which lies in \<^verbatim>\<open>out\<close> and not beside it.
  In the year 10000 the time stamp has five digits for the year. When \<^verbatim>\<open>out\<close> exists and
  is a regular file, the constructor throws and no directory is used. And when the
  time-stamped directory is there already, from an evaluator set up in the same second, its
  scores are overwritten with the header.
\<close>

theorem timestamped_directory_is_no_sibling_counterexample:
  "filesystem_exists example_world ''out'' \<and>
   map_option (output_directory_m \<circ> fst)
     (new_Evaluator example_time example_config 0 example_world) =
     Some ''out/2023_01_02-03_04_05'' \<and>
   parent_path (path_of ''out/2023_01_02-03_04_05'') = path_of ''out'' \<and>
   \<not> sibling ''out/2023_01_02-03_04_05'' ''out'' \<and>
   put_time (example_time\<lparr>tm_year := 8100\<rparr>) = ''10000_01_02-03_04_05'' \<and>
   \<not> is_timestamp ''10000_01_02-03_04_05'' \<and>
   filesystem_exists (empty_world\<lparr>file_table := (file_table empty_world)
      ((False, [''out'']) \<mapsto> [])\<rparr>) ''out'' \<and>
   new_Evaluator example_time example_config 0
     (empty_world\<lparr>file_table := (file_table empty_world)
        ((False, [''out'']) \<mapsto> [])\<rparr>) = None \<and>
   filesystem_exists stamped_world ''out'' \<and>
   files stamped_world ''out/2023_01_02-03_04_05/scores.csv'' =
     Some (chars ''scores of an earlier run'' @ endl) \<and>
   new_Evaluator example_time example_config 0 stamped_world =
     Some (example_evaluator\<lparr>output_directory_m := ''out/2023_01_02-03_04_05''\<rparr>,
           stamped_world
             \<lparr>file_table := (file_table stamped_world)
                ((False, [''out'', ''2023_01_02-03_04_05'', ''scores.csv'']) \<mapsto>
                   chars (''timestamp,'' @
                     ''point_IoU,point_Precision,point_Recall,point_TP,point_TN,point_FP,point_FN,'' @
                     ''cluster_IoU,cluster_Precision,cluster_Recall,'' @
                     ''cluster_TP,cluster_TN,cluster_FP,cluster_FN,'' @
                     ''EvaluatedPoints,TotalPoints'') @ endl),
              glog := glog stamped_world @
                [LogInfo (chars ''Writing evaluation to '' @ [Chr (CHR 0x27)] @
                          chars ''out/2023_01_02-03_04_05.'')]\<rparr>)"
proof -
  have p: "path_of ''out'' = (False, [''out''])"
    "path_of ''out/2023_01_02-03_04_05'' = (False, [''out'', ''2023_01_02-03_04_05''])"
    "path_of ''out/2023_01_02-03_04_05/scores.csv'' =
       (False, [''out'', ''2023_01_02-03_04_05'', ''scores.csv''])"
    by (simp_all add: path_of_def)
  have a: "ancestors (False, [''out'', ''2023_01_02-03_04_05'']) = [(False, [''out''])]"
    by (simp add: ancestors_def upt_conv_Cons)
  have 1: "filesystem_exists example_world ''out''" "filesystem_exists stamped_world ''out''"
    by (simp_all add: filesystem_exists_def p files_def stamped_world_def example_world_def)
  have 2: "map_option (output_directory_m \<circ> fst)
      (new_Evaluator example_time example_config 0 example_world) =
      Some ''out/2023_01_02-03_04_05''"
    using 1(1)
    by (simp add: new_Evaluator_def checkParams_def float_ge_def float_gt_def setupFiles_def
        Let_def create_directories_def put_time_example p a example_config_def)
       (simp add: example_world_def)
  have 3: "parent_path (path_of ''out/2023_01_02-03_04_05'') = path_of ''out''"
    by (simp add: p parent_path_def)
  have 4: "\<not> sibling ''out/2023_01_02-03_04_05'' ''out''"
    by (simp add: sibling_def p parent_path_def)
  have 5: "put_time (example_time\<lparr>tm_year := 8100\<rparr>) = ''10000_01_02-03_04_05''"
    by (simp add: put_time_def two_digits_def digit_char_def decimal.simps example_time_def)
  have 6: "\<not> is_timestamp ''10000_01_02-03_04_05''"
    by (simp add: is_timestamp_def)
  have 7: "files stamped_world ''out/2023_01_02-03_04_05/scores.csv'' =
      Some (chars ''scores of an earlier run'' @ endl)"
    by (simp add: files_def p stamped_world_def)
  have 8: "new_Evaluator example_time example_config 0 stamped_world =
     Some (example_evaluator\<lparr>output_directory_m := ''out/2023_01_02-03_04_05''\<rparr>,
           stamped_world
             \<lparr>file_table := (file_table stamped_world)
                ((False, [''out'', ''2023_01_02-03_04_05'', ''scores.csv'']) \<mapsto>
                   chars (''timestamp,'' @
                     ''point_IoU,point_Precision,point_Recall,point_TP,point_TN,point_FP,point_FN,'' @
                     ''cluster_IoU,cluster_Precision,cluster_Recall,'' @
                     ''cluster_TP,cluster_TN,cluster_FP,cluster_FN,'' @
                     ''EvaluatedPoints,TotalPoints'') @ endl),
              glog := glog stamped_world @
                [LogInfo (chars ''Writing evaluation to '' @ [Chr (CHR 0x27)] @
                          chars ''out/2023_01_02-03_04_05.'')]\<rparr>)"
    using 1(2)
    by (simp add: new_Evaluator_def checkParams_def float_ge_def float_gt_def setupFiles_def
        Let_def create_directories_def put_time_example p a log_info_def files_def
        open_trunc_def stream_write_def level_header_def scores_file_name_def chars_def
        numeral_eq_Suc example_config_def example_evaluator_def)
       (auto simp add: stamped_world_def example_world_def)
  have 9: "filesystem_exists (empty_world\<lparr>file_table := (file_table empty_world)
      ((False, [''out'']) \<mapsto> [])\<rparr>) ''out''"
    by (simp add: filesystem_exists_def p files_def empty_world_def)
  then have 10: "new_Evaluator example_time example_config 0
      (empty_world\<lparr>file_table := (file_table empty_world)
         ((False, [''out'']) \<mapsto> [])\<rparr>) = None"
    by (simp add: new_Evaluator_def checkParams_def float_ge_def float_gt_def setupFiles_def
        Let_def create_directories_def put_time_example p a example_config_def)
  from 1 2 3 4 5 6 7 8 9 10 show ?thesis by (simp only: simp_thms)
qed

end
